theory Spec2Isabelle
  imports Main "HOL-Library.Word"
begin

section \<open>Shared data model\<close>

text \<open>
  Both agents declare the same structure \<open>CrashInfo\<close>; only the integer width of \<open>pid\<close>
  and \<open>exceptionCode\<close> differs (\<open>DWORD\<close>, 32 bits, in the Windows agent; \<open>unsigned long\<close>,
  64 bits on an LP64 Linux target, in the Linux agent). The record is therefore
  polymorphic in the integer type of these two fields.
\<close>

record 'w CrashInfo =
  haveCrash :: bool
  exePath :: string
  pid :: 'w
  exceptionCode :: 'w
  crashFile :: string

text \<open>
  The global shared state of an agent: the atomic flag \<open>g_crashHappened\<close> and the
  record \<open>g_lastCrash\<close>. Both have static storage duration, so they start as
  \<open>false\<close> and as the zero-initialised record with empty strings.
\<close>

record 'w globals =
  g_crashHappened :: bool
  g_lastCrash :: "'w CrashInfo"

definition initial_CrashInfo :: "('w::zero) CrashInfo" where
  "initial_CrashInfo =
     \<lparr>haveCrash = False, exePath = [], pid = 0, exceptionCode = 0, crashFile = []\<rparr>"

definition initial_globals :: "('w::zero) globals" where
  "initial_globals = \<lparr>g_crashHappened = False, g_lastCrash = initial_CrashInfo\<rparr>"

type_synonym dword = "32 word"
type_synonym ulong = "64 word"

section \<open>Number formatting of the C++ library\<close>

text \<open>\<open>std::to_string\<close> on an unsigned integer: its decimal digits, no sign, no padding.\<close>

definition digit_char :: "nat \<Rightarrow> char" where
  "digit_char d = ''0123456789abcdef'' ! d"

function dec_digits :: "nat \<Rightarrow> string" where
  "dec_digits n =
     (if n < 10 then [digit_char n] else dec_digits (n div 10) @ [digit_char (n mod 10)])"
  by pat_completeness auto
termination
  by (relation "measure (\<lambda>n. n)") auto

declare dec_digits.simps [simp del]

definition to_string :: "('a::len) word \<Rightarrow> string" where
  "to_string w = dec_digits (unat w)"

text \<open>
  \<open>stream << std::hex << value\<close> on an unsigned integer: lowercase hexadecimal digits,
  no prefix and no padding (the value 0 prints as the single digit 0).
\<close>

function hex_digits :: "nat \<Rightarrow> string" where
  "hex_digits n =
     (if n < 16 then [digit_char n] else hex_digits (n div 16) @ [digit_char (n mod 16)])"
  by pat_completeness auto
termination
  by (relation "measure (\<lambda>n. n)") auto

declare hex_digits.simps [simp del]

definition hex_string :: "('a::len) word \<Rightarrow> string" where
  "hex_string w = hex_digits (unat w)"

section \<open>The query responder's framing\<close>

definition CR :: char where "CR = CHR 0x0D"
definition LF :: char where "LF = CHR 0x0A"

definition no_crash_response :: string where
  "no_crash_response = ''{ \"crash\": false }'' @ [LF]"

definition http_header :: string where
  "http_header =
     ''HTTP/1.1 200 OK'' @ [CR, LF] @ ''Content-Type: application/json'' @ [CR, LF] @ [CR, LF]"

section \<open>The Linux agent (external-artifact poller)\<close>

definition CRASH_DIR :: string where
  "CRASH_DIR = ''/mnt/virtfs/fawkes/crashes''"

text \<open>
  The body of the accept loop of \<open>StartTCPServer\<close> in the Linux agent, from the load of
  the flag to the string handed to \<open>send\<close>. The true branch contains
  \<open>std::to_string(std::hex)\<close> and a trailing \<open>+ std::dec\<close>: \<open>std::hex\<close> and \<open>std::dec\<close>
  are stream manipulators (functions), for which the library declares neither a
  \<open>std::to_string\<close> overload nor a string concatenation. Whatever text these two
  operands contribute is taken as the parameters \<open>hex_text\<close> and \<open>dec_text\<close>; the
  remaining operands are modelled as written, in particular
  \<open>std::to_string(g_lastCrash.exceptionCode)\<close>, which yields decimal digits.
\<close>

definition exception_text_linux :: "string \<Rightarrow> string \<Rightarrow> ulong \<Rightarrow> string" where
  "exception_text_linux hex_text dec_text code =
     ''0x'' @ hex_text @ to_string code @ dec_text"

definition response_linux :: "string \<Rightarrow> string \<Rightarrow> ulong globals \<Rightarrow> string" where
  "response_linux hex_text dec_text g =
     (let crash = g_crashHappened g in
      if crash \<and> haveCrash (g_lastCrash g) then
        ''{ \"crash\": true, \"pid\": '' @ to_string (pid (g_lastCrash g)) @
        '', \"exe\": \"'' @ exePath (g_lastCrash g) @ ''\", \"exception\": \"'' @
        exception_text_linux hex_text dec_text (exceptionCode (g_lastCrash g)) @
        ''\", \"file\": \"'' @ crashFile (g_lastCrash g) @ ''\" }'' @ [LF]
      else no_crash_response)"

definition http_linux :: "string \<Rightarrow> string \<Rightarrow> ulong globals \<Rightarrow> string" where
  "http_linux hex_text dec_text g = http_header @ response_linux hex_text dec_text g"

subsection \<open>\<open>std::stoi\<close> and \<open>parsePID\<close>\<close>

text \<open>
  \<open>std::stoi(str)\<close> (base 10) as the C++ standard defines it through \<open>strtol\<close>: leading
  white space is skipped, one optional sign is read, then the longest run of decimal
  digits; text after the digits is ignored. It throws \<open>invalid_argument\<close> when there is
  no digit to convert and \<open>out_of_range\<close> when the value does not fit an \<open>int\<close> (32 bits).
\<close>

datatype stoi_error = invalid_argument | out_of_range

definition isspace :: "char \<Rightarrow> bool" where
  "isspace c = (c = CHR 0x20 \<or> c = CHR 0x09 \<or> c = CHR 0x0A \<or> c = CHR 0x0B \<or>
                c = CHR 0x0C \<or> c = CHR 0x0D)"

definition isdigit :: "char \<Rightarrow> bool" where
  "isdigit c = (48 \<le> (of_char c :: nat) \<and> (of_char c :: nat) \<le> 57)"

definition digits_value :: "string \<Rightarrow> int" where
  "digits_value ds = foldl (\<lambda>acc c. acc * 10 + (int (of_char c) - 48)) 0 ds"

definition INT_MIN :: int where "INT_MIN = - (2 ^ 31)"
definition INT_MAX :: int where "INT_MAX = 2 ^ 31 - 1"

definition stoi :: "string \<Rightarrow> stoi_error + int" where
  "stoi str =
     (let s1 = dropWhile isspace str;
          negative = (case s1 of [] \<Rightarrow> False | c # _ \<Rightarrow> c = CHR ''-'');
          s2 = (case s1 of [] \<Rightarrow> [] | c # r \<Rightarrow> if c = CHR ''-'' \<or> c = CHR ''+'' then r else s1);
          ds = takeWhile isdigit s2
      in if ds = [] then Inl invalid_argument
         else let v = (if negative then - digits_value ds else digits_value ds)
              in if v < INT_MIN \<or> INT_MAX < v then Inl out_of_range else Inr v)"

text \<open>\<open>filename.rfind(prefix, 0) == 0\<close>: the string begins with the prefix.\<close>

definition starts_with :: "string \<Rightarrow> string \<Rightarrow> bool" where
  "starts_with str pre = (take (length pre) str = pre)"

definition parsePID :: "string \<Rightarrow> int" where
  "parsePID filename =
     (let prefix = ''core.'' in
      if starts_with filename prefix then
        (let pidStr = drop (length prefix) filename in
         case stoi pidStr of Inr v \<Rightarrow> v | Inl _ \<Rightarrow> - 1)
      else - 1)"

subsection \<open>One cycle of \<open>CrashWatcherLoop\<close>\<close>

text \<open>
  What \<open>fs::directory_iterator\<close> yields for one entry of the crash directory: the
  entry's name, whether it is a regular file, and its last write time. Times are counted
  in clock ticks above \<open>fs::file_time_type::min()\<close>, the least value of the time type, so
  that \<open>file_time_min\<close> is 0. A directory is the list of its entries in iteration order.
\<close>

type_synonym file_time = nat

definition file_time_min :: file_time where
  "file_time_min = 0"

record dir_entry =
  filename :: string
  is_regular_file :: bool
  last_write_time :: file_time

text \<open>\<open>entry.path().string()\<close>: the directory joined with the entry's name.\<close>

definition entry_path :: "dir_entry \<Rightarrow> string" where
  "entry_path e = CRASH_DIR @ ''/'' @ filename e"

text \<open>
  The \<open>for\<close> loop over the directory, with the loop variables \<open>newestTime\<close> and
  \<open>newestPath\<close> as accumulators; \<open>None\<close> is the empty path.
\<close>

fun scan_dir :: "dir_entry list \<Rightarrow> file_time \<Rightarrow> dir_entry option \<Rightarrow> dir_entry option" where
  "scan_dir [] newestTime newestPath = newestPath"
| "scan_dir (entry # rest) newestTime newestPath =
     (if \<not> is_regular_file entry then scan_dir rest newestTime newestPath
      else if starts_with (filename entry) ''core.'' then
        (if last_write_time entry > newestTime
         then scan_dir rest (last_write_time entry) (Some entry)
         else scan_dir rest newestTime newestPath)
      else scan_dir rest newestTime newestPath)"

text \<open>
  The watcher's state: its local variable \<open>lastCore\<close> and the globals it shares with the
  responder.
\<close>

record watcher =
  lastCore :: string
  shared :: "ulong globals"

definition initial_watcher :: watcher where
  "initial_watcher = \<lparr>lastCore = [], shared = initial_globals\<rparr>"

text \<open>
  The record the watcher writes under the mutex. \<open>newestPath.filename()\<close> is the entry's
  name (a directory entry's name has no separator), and
  \<open>unsigned long pidVal = parsePID(...)\<close> converts the \<open>int\<close> result to 64 bits unsigned,
  which is \<open>word_of_int\<close>.
\<close>

definition detected_crash :: "dir_entry \<Rightarrow> ulong globals" where
  "detected_crash newest =
     (let newestFull = entry_path newest;
          pidVal = (word_of_int (parsePID (filename newest)) :: ulong)
      in \<lparr>g_crashHappened = True,
          g_lastCrash = \<lparr>haveCrash = True, exePath = ''unknown'', pid = pidVal,
                          exceptionCode = 0xC0000005, crashFile = newestFull\<rparr>\<rparr>)"

text \<open>
  One iteration of the \<open>while (true)\<close> loop after its sleep. The argument is what the
  iteration sees of the crash directory: \<open>None\<close> when it is missing or not a directory
  (the iteration is skipped by \<open>continue\<close>), otherwise its entries.
\<close>

definition poll_cycle :: "dir_entry list option \<Rightarrow> watcher \<Rightarrow> watcher" where
  "poll_cycle observed w =
     (case observed of
        None \<Rightarrow> w
      | Some entries \<Rightarrow>
          (case scan_dir entries file_time_min None of
             None \<Rightarrow> w
           | Some newest \<Rightarrow>
               (let newestFull = entry_path newest in
                if newestFull \<noteq> lastCore w
                then \<lparr>lastCore = newestFull, shared = detected_crash newest\<rparr>
                else w)))"


text \<open>
  The Linux agent as a whole: the watcher thread and the server thread take turns, each
  turn being one poll cycle or one answered query. A query only reads the globals.
\<close>

datatype linux_event = Poll "dir_entry list option" | Query

fun linux_step :: "linux_event \<Rightarrow> watcher \<Rightarrow> watcher" where
  "linux_step (Poll observed) w = poll_cycle observed w"
| "linux_step Query w = w"

fun linux_run :: "linux_event list \<Rightarrow> watcher \<Rightarrow> watcher" where
  "linux_run [] w = w"
| "linux_run (ev # evs) w = linux_run evs (linux_step ev w)"

section \<open>The Windows agent (in-process trap)\<close>

definition BACKSLASH :: char where "BACKSLASH = CHR 0x5C"

definition CRASH_SUBDIR :: string where
  "CRASH_SUBDIR = ''Z:'' @ [BACKSLASH] @ ''qemu''"

text \<open>
  The first step of \<open>CreateCrashJSON\<close> is
  \<open>if (!fs::exists(crashDir)) fs::create_directories(crashDir)\<close>. Both calls are the
  throwing overloads and nothing in the agent catches, so the step has three outcomes:
  the directory is there, it is missing and gets created, or one of the two calls throws
  \<open>std::filesystem::filesystem_error\<close> (the directory is missing and cannot be created,
  or its status cannot be read).
\<close>

datatype dir_step = dir_present | dir_created | dir_unavailable

datatype fs_exception = filesystem_error

text \<open>
  What the operating system supplies when a fault is handled: the fault code of the
  exception record, the process id, the result of \<open>GetModuleFileNameA\<close> (\<open>None\<close> when it
  returns 0), the outcome of the directory step, the text \<open>strftime\<close> produces for the
  current time, and whether the \<open>std::ofstream\<close> on the artifact path could be opened.
\<close>

record fault =
  ExceptionCode :: dword
  CurrentProcessId :: dword
  ModuleFileName :: "string option"
  crash_dir :: dir_step
  time_text :: string
  ofstream_ok :: bool

text \<open>
  \<open>CreateCrashJSON\<close>: either the exception thrown by the directory step, or the returned
  path (empty when the stream could not be opened) together with the file it wrote, if
  any, as a pair of path and content.
\<close>

definition crash_json_text :: "string \<Rightarrow> dword \<Rightarrow> dword \<Rightarrow> string" where
  "crash_json_text exe pd code =
     ''{'' @ [LF] @
     ''  \"crash\": true,'' @ [LF] @
     ''  \"pid\": '' @ to_string pd @ '','' @ [LF] @
     ''  \"exe\": \"'' @ exe @ ''\",'' @ [LF] @
     ''  \"exception\": \"0x'' @ hex_string code @ ''\"'' @ [LF] @
     ''}'' @ [LF]"

definition CreateCrashJSON ::
  "dir_step \<Rightarrow> bool \<Rightarrow> string \<Rightarrow> string \<Rightarrow> dword \<Rightarrow> dword \<Rightarrow>
     fs_exception + string \<times> (string \<times> string) option" where
  "CreateCrashJSON dir opened buf exe pd code =
     (if dir = dir_unavailable then Inl filesystem_error
      else
        (let fname = ''crash_'' @ to_string pd @ ''_'' @ buf @ ''.json'';
             fullPath = CRASH_SUBDIR @ [BACKSLASH] @ fname
         in if \<not> opened then Inr ([], None)
            else Inr (fullPath, Some (fullPath, crash_json_text exe pd code))))"

text \<open>
  \<open>MyUnhandledExceptionFilter\<close>, as far as the shared state goes. When \<open>CreateCrashJSON\<close>
  throws, the exception leaves the handler before the block under the mutex and nothing
  is stored; otherwise the result holds the globals after that block. (The handler's
  return value, the chained original filter's or \<open>EXCEPTION_EXECUTE_HANDLER\<close>, does not
  touch the globals.)
\<close>

definition MyUnhandledExceptionFilter ::
  "fault \<Rightarrow> dword globals \<Rightarrow> fs_exception + dword globals" where
  "MyUnhandledExceptionFilter pExp g =
     (let code = ExceptionCode pExp;
          pd = CurrentProcessId pExp;
          exe = (case ModuleFileName pExp of None \<Rightarrow> ''unknown'' | Some p \<Rightarrow> p)
      in case CreateCrashJSON (crash_dir pExp) (ofstream_ok pExp) (time_text pExp) exe pd code of
           Inl e \<Rightarrow> Inl e
         | Inr (jsonFile, written) \<Rightarrow>
             Inr \<lparr>g_crashHappened = True,
                  g_lastCrash = \<lparr>haveCrash = True, exePath = exe, pid = pd,
                                  exceptionCode = code, crashFile = jsonFile\<rparr>\<rparr>)"

text \<open>The body of the accept loop of the Windows \<open>StartTCPServer\<close>.\<close>

definition response_windows :: "dword globals \<Rightarrow> string" where
  "response_windows g =
     (let crash = g_crashHappened g in
      if crash \<and> haveCrash (g_lastCrash g) then
        (let excStr = ''0x'' @ hex_string (exceptionCode (g_lastCrash g)) in
         ''{ \"crash\": true, \"pid\": '' @ to_string (pid (g_lastCrash g)) @
         '', \"exe\": \"'' @ exePath (g_lastCrash g) @
         ''\", \"exception\": \"'' @ excStr @
         ''\", \"file\": \"'' @ crashFile (g_lastCrash g) @ ''\" }'' @ [LF])
      else no_crash_response)"

definition http_windows :: "dword globals \<Rightarrow> string" where
  "http_windows g = http_header @ response_windows g"

text \<open>
  The Windows agent as a whole: each event is a handled fault or an answered query. The
  state is the globals; a handler that ends in an exception has stored nothing, so the
  globals are as before (what becomes of the process then is not modelled).
\<close>

datatype windows_event = Fault fault | WQuery

fun windows_step :: "windows_event \<Rightarrow> dword globals \<Rightarrow> dword globals" where
  "windows_step (Fault pExp) g =
     (case MyUnhandledExceptionFilter pExp g of Inl e \<Rightarrow> g | Inr g' \<Rightarrow> g')"
| "windows_step WQuery g = g"

fun windows_run :: "windows_event list \<Rightarrow> dword globals \<Rightarrow> dword globals" where
  "windows_run [] g = g"
| "windows_run (ev # evs) g = windows_run evs (windows_step ev g)"

section \<open>Vocabulary of the properties\<close>

text \<open>
  The condition under which the responder takes its crash branch: the flag it loaded and
  \<open>haveCrash\<close> are both set. This is the specification's \<open>present\<close>.
\<close>

definition present :: "'w globals \<Rightarrow> bool" where
  "present g = (g_crashHappened g \<and> haveCrash (g_lastCrash g))"

text \<open>Events that install nothing: a query, or a poll cycle whose scan selects no artifact.\<close>

fun finds_no_artifact :: "linux_event \<Rightarrow> bool" where
  "finds_no_artifact (Poll None) = True"
| "finds_no_artifact (Poll (Some entries)) = (scan_dir entries file_time_min None = None)"
| "finds_no_artifact Query = True"

fun is_query :: "windows_event \<Rightarrow> bool" where
  "is_query WQuery = True"
| "is_query (Fault pExp) = False"

text \<open>The artifact of the end-to-end scenario: a regular file \<open>core.4242\<close>.\<close>

definition core_4242 :: dir_entry where
  "core_4242 = \<lparr>filename = ''core.4242'', is_regular_file = True, last_write_time = 1\<rparr>"

text \<open>
  Faults of the Windows agent used as concrete inputs, all an access violation in process
  1234: one whose artifact is written, one whose artifact stream cannot be opened, and one
  that finds the crash directory missing and not creatable (the share is not mounted).
\<close>

definition access_violation :: fault where
  "access_violation =
     \<lparr>ExceptionCode = 0xC0000005, CurrentProcessId = 1234, ModuleFileName = Some ''agent.exe'',
      crash_dir = dir_present, time_text = ''20230601_120000'', ofstream_ok = True\<rparr>"

definition stream_refused :: fault where
  "stream_refused =
     \<lparr>ExceptionCode = 0xC0000005, CurrentProcessId = 1234, ModuleFileName = Some ''agent.exe'',
      crash_dir = dir_present, time_text = ''20230601_120000'', ofstream_ok = False\<rparr>"

definition share_unmounted :: fault where
  "share_unmounted =
     \<lparr>ExceptionCode = 0xC0000005, CurrentProcessId = 1234, ModuleFileName = Some ''agent.exe'',
      crash_dir = dir_unavailable, time_text = ''20230601_120000'', ofstream_ok = False\<rparr>"

text \<open>
  The entries a scan does not ignore: regular files whose name begins with \<open>core.\<close>,
  in iteration order.
\<close>

definition matching :: "dir_entry list \<Rightarrow> dir_entry list" where
  "matching entries =
     filter (\<lambda>e. is_regular_file e \<and> starts_with (filename e) ''core.'') entries"

text \<open>
  Concrete inputs: an artifact stamped with the least value of the time type, and a crash
  directory with an unrelated file, such an artifact, a directory named like an artifact,
  and three more artifacts of which the last two share the newest time.
\<close>

definition min_time_core :: dir_entry where
  "min_time_core = \<lparr>filename = ''core.1'', is_regular_file = True, last_write_time = 0\<rparr>"

definition crash_dir_example :: "dir_entry list" where
  "crash_dir_example =
     [\<lparr>filename = ''notes.txt'', is_regular_file = True, last_write_time = 90\<rparr>,
      \<lparr>filename = ''core.0'', is_regular_file = True, last_write_time = 0\<rparr>,
      \<lparr>filename = ''core.1'', is_regular_file = True, last_write_time = 5\<rparr>,
      \<lparr>filename = ''core.9'', is_regular_file = False, last_write_time = 100\<rparr>,
      \<lparr>filename = ''core.2'', is_regular_file = True, last_write_time = 7\<rparr>,
      \<lparr>filename = ''core.3'', is_regular_file = True, last_write_time = 7\<rparr>]"




section \<open>The platform crash configurators\<close>

text \<open>
  The operating system state the two configurators write, and the system calls they use,
  modelled by their documented effect. The Windows registry maps a key path to the named
  values of the key. \<open>RegCreateKeyExA\<close> opens the key and creates it, without values,
  when it does not exist; \<open>RegSetValueExA\<close> stores a value under a name, replacing
  any previous one. Whether a call succeeds (privileges) is outside the program and is a
  parameter of the model.
\<close>

datatype reg_data = REG_SZ string | REG_DWORD dword

type_synonym registry = "string \<rightharpoonup> (string \<rightharpoonup> reg_data)"

definition WER_KEY :: string where
  "WER_KEY = ''SOFTWARE'' @ [BACKSLASH] @ ''Microsoft'' @ [BACKSLASH] @ ''Windows'' @
     [BACKSLASH] @ ''Windows Error Reporting'' @ [BACKSLASH] @ ''LocalDumps''"

definition RegCreateKeyExA :: "string \<Rightarrow> registry \<Rightarrow> registry" where
  "RegCreateKeyExA key reg = (case reg key of None \<Rightarrow> reg(key \<mapsto> Map.empty) | Some _ \<Rightarrow> reg)"

definition RegSetValueExA :: "string \<Rightarrow> string \<Rightarrow> reg_data \<Rightarrow> registry \<Rightarrow> registry" where
  "RegSetValueExA key name d reg =
     (case reg key of None \<Rightarrow> reg | Some vals \<Rightarrow> reg(key \<mapsto> vals(name \<mapsto> d)))"

record reg_api =
  create_key_succeeds :: bool
  set_DumpFolder_succeeds :: bool
  set_DumpType_succeeds :: bool

text \<open>
  \<open>ConfigureWER\<close>: the returned flag and the registry afterwards. The result of the
  second \<open>RegSetValueExA\<close> is not checked by the source.
\<close>

definition ConfigureWER :: "reg_api \<Rightarrow> registry \<Rightarrow> bool \<times> registry" where
  "ConfigureWER api reg =
     (if \<not> create_key_succeeds api then (False, reg)
      else
        (let reg1 = RegCreateKeyExA WER_KEY reg in
         if \<not> set_DumpFolder_succeeds api then (False, reg1)
         else
           (let reg2 = RegSetValueExA WER_KEY ''DumpFolder'' (REG_SZ CRASH_SUBDIR) reg1;
                dumpType = 2;
                reg3 = (if set_DumpType_succeeds api
                        then RegSetValueExA WER_KEY ''DumpType'' (REG_DWORD dumpType) reg2
                        else reg2)
            in (True, reg3))))"

text \<open>
  The Linux side: the kernel's core pattern and the core size limit of the process.
  Writing a line to \<open>/proc/sys/kernel/core_pattern\<close> sets the pattern to the text before
  the line feed. \<open>setrlimit\<close> fails when the soft limit exceeds the hard one, or when the
  hard limit is raised without \<open>CAP_SYS_RESOURCE\<close>. The source checks that the stream
  opened, not that the write went through.
\<close>

definition CORE_PATTERN_VALUE :: string where
  "CORE_PATTERN_VALUE = ''/mnt/virtfs/fawkes/crashes/core.%p''"

type_synonym rlim_t = ulong

definition RLIM_INFINITY :: rlim_t where
  "RLIM_INFINITY = - 1"

record rlimit =
  rlim_cur :: rlim_t
  rlim_max :: rlim_t

record kernel =
  core_pattern :: string
  RLIMIT_CORE :: rlimit

record sys_api =
  ofstream_opens :: bool
  write_succeeds :: bool
  CAP_SYS_RESOURCE :: bool

definition proc_sys_write :: "string \<Rightarrow> string" where
  "proc_sys_write text = takeWhile (\<lambda>c. c \<noteq> LF) text"

definition setrlimit :: "bool \<Rightarrow> rlimit \<Rightarrow> rlimit \<Rightarrow> rlimit option" where
  "setrlimit privileged new old =
     (if rlim_max new < rlim_cur new then None
      else if rlim_max old < rlim_max new \<and> \<not> privileged then None
      else Some new)"

definition ConfigureCorePattern :: "sys_api \<Rightarrow> kernel \<Rightarrow> bool \<times> kernel" where
  "ConfigureCorePattern api k =
     (if \<not> ofstream_opens api then (False, k)
      else
        (let k1 = (if write_succeeds api
                   then k\<lparr>core_pattern := proc_sys_write (CORE_PATTERN_VALUE @ [LF])\<rparr>
                   else k);
             core_limit = \<lparr>rlim_cur = RLIM_INFINITY, rlim_max = RLIM_INFINITY\<rparr>
         in case setrlimit (CAP_SYS_RESOURCE api) core_limit (RLIMIT_CORE k1) of
              None \<Rightarrow> (False, k1)
            | Some l \<Rightarrow> (True, k1\<lparr>RLIMIT_CORE := l\<rparr>)))"

text \<open>Concrete inputs: calls that all succeed, and a kernel with its default settings.\<close>

definition all_succeed :: reg_api where
  "all_succeed = \<lparr>create_key_succeeds = True, set_DumpFolder_succeeds = True,
                   set_DumpType_succeeds = True\<rparr>"

definition as_root :: sys_api where
  "as_root = \<lparr>ofstream_opens = True, write_succeeds = True, CAP_SYS_RESOURCE = True\<rparr>"

definition fresh_kernel :: kernel where
  "fresh_kernel = \<lparr>core_pattern = ''core'', RLIMIT_CORE = \<lparr>rlim_cur = 0, rlim_max = RLIM_INFINITY\<rparr>\<rparr>"

section \<open>The store under concurrent access\<close>

text \<open>
  The detector's block under \<open>g_crashMutex\<close> (the same six writes, in the same order,
  in \<open>MyUnhandledExceptionFilter\<close> and in \<open>CrashWatcherLoop\<close>) and the responder's load of
  the flag followed by its block under the mutex, run as two threads. Each access to the
  flag or to one field of \<open>g_lastCrash\<close> is one atomic step, taking the mutex is a step
  that is enabled only while the mutex is free, and a schedule, the list of the threads
  that take the successive steps, fixes the interleaving. A thread that is scheduled
  while it waits for the mutex, or after it has finished, leaves the state unchanged.
\<close>

datatype thread = Detector | Responder

datatype set_pc =
  S_lock | S_flag | S_haveCrash | S_exePath | S_pid | S_exceptionCode | S_crashFile |
  S_unlock | S_done

datatype get_pc =
  G_load | G_lock | G_test | G_pid | G_exePath | G_exceptionCode | G_crashFile |
  G_unlock | G_done

text \<open>
  The state of the two threads: the shared globals, the owner of the mutex, the two
  program counters, and the responder's locals: its copy \<open>crash\<close> of the flag, whether it
  took the crash branch, and the field values it has read so far.
\<close>

record 'w conc =
  mem :: "'w globals"
  g_crashMutex :: "thread option"
  set_at :: set_pc
  get_at :: get_pc
  crash :: bool
  branch :: bool
  copy :: "'w CrashInfo"

definition start :: "('w::zero) globals \<Rightarrow> 'w conc" where
  "start old =
     \<lparr>mem = old, g_crashMutex = None, set_at = S_lock, get_at = G_load, crash = False,
      branch = False, copy = initial_CrashInfo\<rparr>"

text \<open>One step of the detector, which stores the values of \<open>new\<close>.\<close>

definition set_step :: "'w CrashInfo \<Rightarrow> 'w conc \<Rightarrow> 'w conc" where
  "set_step new s =
     (case set_at s of
        S_lock \<Rightarrow>
          (if g_crashMutex s = None then s\<lparr>g_crashMutex := Some Detector, set_at := S_flag\<rparr>
           else s)
      | S_flag \<Rightarrow> s\<lparr>mem := (mem s)\<lparr>g_crashHappened := True\<rparr>, set_at := S_haveCrash\<rparr>
      | S_haveCrash \<Rightarrow>
          s\<lparr>mem := (mem s)\<lparr>g_lastCrash := (g_lastCrash (mem s))\<lparr>haveCrash := True\<rparr>\<rparr>,
            set_at := S_exePath\<rparr>
      | S_exePath \<Rightarrow>
          s\<lparr>mem := (mem s)\<lparr>g_lastCrash := (g_lastCrash (mem s))\<lparr>exePath := exePath new\<rparr>\<rparr>,
            set_at := S_pid\<rparr>
      | S_pid \<Rightarrow>
          s\<lparr>mem := (mem s)\<lparr>g_lastCrash := (g_lastCrash (mem s))\<lparr>pid := pid new\<rparr>\<rparr>,
            set_at := S_exceptionCode\<rparr>
      | S_exceptionCode \<Rightarrow>
          s\<lparr>mem := (mem s)\<lparr>g_lastCrash :=
                 (g_lastCrash (mem s))\<lparr>exceptionCode := exceptionCode new\<rparr>\<rparr>,
            set_at := S_crashFile\<rparr>
      | S_crashFile \<Rightarrow>
          s\<lparr>mem := (mem s)\<lparr>g_lastCrash := (g_lastCrash (mem s))\<lparr>crashFile := crashFile new\<rparr>\<rparr>,
            set_at := S_unlock\<rparr>
      | S_unlock \<Rightarrow> s\<lparr>g_crashMutex := None, set_at := S_done\<rparr>
      | S_done \<Rightarrow> s)"

text \<open>
  One step of the responder. The test \<open>crash && g_lastCrash.haveCrash\<close> reads \<open>haveCrash\<close>
  under the mutex; the fields are then read in the order in which the response names them.
\<close>

definition get_step :: "'w conc \<Rightarrow> 'w conc" where
  "get_step s =
     (case get_at s of
        G_load \<Rightarrow> s\<lparr>crash := g_crashHappened (mem s), get_at := G_lock\<rparr>
      | G_lock \<Rightarrow>
          (if g_crashMutex s = None then s\<lparr>g_crashMutex := Some Responder, get_at := G_test\<rparr>
           else s)
      | G_test \<Rightarrow>
          (if crash s \<and> haveCrash (g_lastCrash (mem s))
           then s\<lparr>branch := True, copy := (copy s)\<lparr>haveCrash := True\<rparr>, get_at := G_pid\<rparr>
           else s\<lparr>branch := False, get_at := G_unlock\<rparr>)
      | G_pid \<Rightarrow> s\<lparr>copy := (copy s)\<lparr>pid := pid (g_lastCrash (mem s))\<rparr>, get_at := G_exePath\<rparr>
      | G_exePath \<Rightarrow>
          s\<lparr>copy := (copy s)\<lparr>exePath := exePath (g_lastCrash (mem s))\<rparr>,
            get_at := G_exceptionCode\<rparr>
      | G_exceptionCode \<Rightarrow>
          s\<lparr>copy := (copy s)\<lparr>exceptionCode := exceptionCode (g_lastCrash (mem s))\<rparr>,
            get_at := G_crashFile\<rparr>
      | G_crashFile \<Rightarrow>
          s\<lparr>copy := (copy s)\<lparr>crashFile := crashFile (g_lastCrash (mem s))\<rparr>,
            get_at := G_unlock\<rparr>
      | G_unlock \<Rightarrow> s\<lparr>g_crashMutex := None, get_at := G_done\<rparr>
      | G_done \<Rightarrow> s)"

fun step :: "'w CrashInfo \<Rightarrow> thread \<Rightarrow> 'w conc \<Rightarrow> 'w conc" where
  "step new Detector s = set_step new s"
| "step new Responder s = get_step s"

fun run :: "'w CrashInfo \<Rightarrow> thread list \<Rightarrow> 'w conc \<Rightarrow> 'w conc" where
  "run new [] s = s"
| "run new (t # ts) s = run new ts (step new t s)"

text \<open>
  What a finished responder has observed: nothing when it took the no-crash branch,
  otherwise the record made of the fields it read. \<open>observe\<close> is what a responder
  running alone observes of given globals, and \<open>completed new\<close> are the globals after a
  whole set of \<open>new\<close>.
\<close>

definition outcome :: "'w conc \<Rightarrow> 'w CrashInfo option" where
  "outcome s = (if branch s then Some (copy s) else None)"

definition observe :: "'w globals \<Rightarrow> 'w CrashInfo option" where
  "observe g = (if g_crashHappened g \<and> haveCrash (g_lastCrash g) then Some (g_lastCrash g) else None)"

definition completed :: "'w CrashInfo \<Rightarrow> 'w globals" where
  "completed new =
     \<lparr>g_crashHappened = True,
      g_lastCrash = \<lparr>haveCrash = True, exePath = exePath new, pid = pid new,
                      exceptionCode = exceptionCode new, crashFile = crashFile new\<rparr>\<rparr>"

text \<open>
  The invariant of the interleaved run, in three parts: who owns the mutex, how much of
  \<open>new\<close> the detector has stored, and what the responder's locals hold; \<open>old\<close> are the
  globals before the set.
\<close>

fun set_progress :: "set_pc \<Rightarrow> nat" where
  "set_progress S_lock = 0"
| "set_progress S_flag = 1"
| "set_progress S_haveCrash = 2"
| "set_progress S_exePath = 3"
| "set_progress S_pid = 4"
| "set_progress S_exceptionCode = 5"
| "set_progress S_crashFile = 6"
| "set_progress S_unlock = 7"
| "set_progress S_done = 8"

fun get_progress :: "get_pc \<Rightarrow> nat" where
  "get_progress G_load = 0"
| "get_progress G_lock = 1"
| "get_progress G_test = 2"
| "get_progress G_pid = 3"
| "get_progress G_exePath = 4"
| "get_progress G_exceptionCode = 5"
| "get_progress G_crashFile = 6"
| "get_progress G_unlock = 7"
| "get_progress G_done = 8"

definition mutex_inv :: "'w conc \<Rightarrow> bool" where
  "mutex_inv s =
     ((g_crashMutex s = Some Detector) = (1 \<le> set_progress (set_at s) \<and> set_progress (set_at s) \<le> 7)
      \<and> (g_crashMutex s = Some Responder) = (2 \<le> get_progress (get_at s) \<and> get_progress (get_at s) \<le> 7))"

definition writer_inv :: "'w CrashInfo \<Rightarrow> 'w globals \<Rightarrow> 'w conc \<Rightarrow> bool" where
  "writer_inv new old s =
     (let p = set_progress (set_at s); m = mem s; r = g_lastCrash (mem s) in
      (p = 0 \<longrightarrow> m = old)
      \<and> (p \<le> 1 \<longrightarrow> g_crashHappened m = g_crashHappened old)
      \<and> (2 \<le> p \<longrightarrow> g_crashHappened m)
      \<and> (3 \<le> p \<longrightarrow> haveCrash r)
      \<and> (4 \<le> p \<longrightarrow> exePath r = exePath new)
      \<and> (5 \<le> p \<longrightarrow> pid r = pid new)
      \<and> (6 \<le> p \<longrightarrow> exceptionCode r = exceptionCode new)
      \<and> (7 \<le> p \<longrightarrow> crashFile r = crashFile new))"

definition reader_inv :: "'w CrashInfo \<Rightarrow> 'w globals \<Rightarrow> 'w conc \<Rightarrow> bool" where
  "reader_inv new old s =
     (let q = get_progress (get_at s); r = g_lastCrash (mem s) in
      (q \<le> 2 \<longrightarrow> \<not> branch s)
      \<and> (1 \<le> q \<longrightarrow> (crash s \<longrightarrow> g_crashHappened old \<or> 2 \<le> set_progress (set_at s))
                    \<and> (\<not> crash s \<longrightarrow> \<not> g_crashHappened old))
      \<and> (3 \<le> q \<and> q \<le> 6 \<longrightarrow> branch s \<and> crash s \<and> haveCrash (copy s) \<and> haveCrash r)
      \<and> (4 \<le> q \<and> q \<le> 6 \<longrightarrow> pid (copy s) = pid r)
      \<and> (5 \<le> q \<and> q \<le> 6 \<longrightarrow> exePath (copy s) = exePath r)
      \<and> (6 \<le> q \<and> q \<le> 6 \<longrightarrow> exceptionCode (copy s) = exceptionCode r)
      \<and> (7 \<le> q \<longrightarrow> outcome s = observe old \<or> outcome s = observe (completed new)))"

definition conc_inv :: "'w CrashInfo \<Rightarrow> 'w globals \<Rightarrow> 'w conc \<Rightarrow> bool" where
  "conc_inv new old s = (mutex_inv s \<and> writer_inv new old s \<and> reader_inv new old s)"

text \<open>A continuation that lets both threads finish from any reachable state.\<close>

definition drain :: "thread list" where
  "drain = replicate 8 Responder @ replicate 8 Detector @ replicate 8 Responder"

text \<open>
  A concrete run: the record of the Linux poller for \<open>core.4242\<close>, and a schedule in
  which the responder loads the flag and waits for the mutex in the middle of the set.
\<close>

definition core_4242_record :: "ulong CrashInfo" where
  "core_4242_record =
     \<lparr>haveCrash = True, exePath = ''unknown'', pid = 4242, exceptionCode = 0xC0000005,
      crashFile = ''/mnt/virtfs/fawkes/crashes/core.4242''\<rparr>"

definition overlapping :: "thread list" where
  "overlapping =
     [Detector, Detector, Responder, Detector, Responder, Detector, Detector, Detector,
      Detector, Detector, Responder, Responder, Responder, Responder, Responder, Responder,
      Responder]"

section \<open>Properties\<close>

subsection \<open>Evaluating the formatting functions\<close>

lemma dec_digits_small: "n < 10 \<Longrightarrow> dec_digits n = [digit_char n]"
  by (simp add: dec_digits.simps)

lemma dec_digits_step: "10 \<le> n \<Longrightarrow> dec_digits n = dec_digits (n div 10) @ [digit_char (n mod 10)]"
  by (subst dec_digits.simps) simp

lemma to_string_placeholder: "to_string (0xC0000005 :: ulong) = ''3221225477''"
  by (simp add: to_string_def dec_digits_small dec_digits_step digit_char_def)

lemma to_string_4242: "to_string (4242 :: ulong) = ''4242''"
  by (simp add: to_string_def dec_digits_small dec_digits_step digit_char_def)

lemma unat_minus_one_ulong: "unat (- 1 :: ulong) = 18446744073709551615"
  by (simp add: unsigned_minus_1_eq_mask mask_eq_exp_minus_1)

lemma to_string_minus_one: "to_string (- 1 :: ulong) = ''18446744073709551615''"
  by (simp add: to_string_def unat_minus_one_ulong dec_digits_small dec_digits_step digit_char_def)

lemma response_linux_absent:
  "\<not> present g \<Longrightarrow> response_linux h d g = no_crash_response"
  by (auto simp add: response_linux_def present_def Let_def)

lemma response_windows_absent:
  "\<not> present g \<Longrightarrow> response_windows g = no_crash_response"
  by (auto simp add: response_windows_def present_def Let_def)

lemma linux_step_no_artifact:
  "finds_no_artifact ev \<Longrightarrow> linux_step ev w = w"
  by (cases ev rule: finds_no_artifact.cases) (simp_all add: poll_cycle_def)

lemma linux_run_no_artifact:
  "list_all finds_no_artifact evs \<Longrightarrow> linux_run evs w = w"
  by (induction evs arbitrary: w) (simp_all add: linux_step_no_artifact)

lemma windows_run_queries:
  "list_all is_query evs \<Longrightarrow> windows_run evs g = g"
proof (induction evs arbitrary: g)
  case Nil
  then show ?case by simp
next
  case (Cons ev evs)
  then show ?case by (cases ev) simp_all
qed

lemma initial_not_present: "\<not> present (initial_globals :: ('w::zero) globals)"
  by (simp add: present_def initial_globals_def)

text \<open>
  C4 (no-crash default). A freshly started agent in which nothing has been installed in
  the store answers every query with exactly the framed JSON object
  \<open>{ "crash": false }\<close>, newline-terminated, and no other field: for the Linux
  agent after any run of queries and poll cycles that find no artifact (whatever the two
  manipulator operands contribute), and for the Windows agent after any run of queries.
\<close>

theorem no_crash_default:
  assumes "list_all finds_no_artifact levs" and "list_all is_query wevs"
  shows "http_linux h d (shared (linux_run levs initial_watcher)) =
           ''HTTP/1.1 200 OK'' @ [CR, LF] @ ''Content-Type: application/json'' @ [CR, LF] @
           [CR, LF] @ ''{ \"crash\": false }'' @ [LF]
       \<and> http_windows (windows_run wevs initial_globals) =
           ''HTTP/1.1 200 OK'' @ [CR, LF] @ ''Content-Type: application/json'' @ [CR, LF] @
           [CR, LF] @ ''{ \"crash\": false }'' @ [LF]"
proof -
  have l: "shared (linux_run levs initial_watcher) = initial_globals"
    using assms(1) by (simp add: linux_run_no_artifact initial_watcher_def)
  have w: "windows_run wevs initial_globals = (initial_globals :: dword globals)"
    using assms(2) by (simp add: windows_run_queries)
  show ?thesis
    unfolding http_linux_def http_windows_def l w
    by (simp add: response_linux_absent response_windows_absent initial_not_present
        http_header_def no_crash_response_def)
qed

theorem no_crash_default_witness:
  "list_all finds_no_artifact
     [Query, Poll None,
      Poll (Some [\<lparr>filename = ''notes.txt'', is_regular_file = True, last_write_time = 5\<rparr>]), Query]
   \<and> list_all is_query [WQuery, WQuery]
   \<and> http_linux [] []
       (shared (linux_run
          [Query, Poll None,
           Poll (Some [\<lparr>filename = ''notes.txt'', is_regular_file = True, last_write_time = 5\<rparr>]),
           Query] initial_watcher)) =
       ''HTTP/1.1 200 OK'' @ [CR, LF] @ ''Content-Type: application/json'' @ [CR, LF] @
       [CR, LF] @ ''{ \"crash\": false }'' @ [LF]
   \<and> http_windows (windows_run [WQuery, WQuery] initial_globals) =
       ''HTTP/1.1 200 OK'' @ [CR, LF] @ ''Content-Type: application/json'' @ [CR, LF] @
       [CR, LF] @ ''{ \"crash\": false }'' @ [LF]"
proof -
  have a: "list_all finds_no_artifact
     [Query, Poll None,
      Poll (Some [\<lparr>filename = ''notes.txt'', is_regular_file = True, last_write_time = 5\<rparr>]), Query]"
    by (simp add: starts_with_def)
  have b: "list_all is_query [WQuery, WQuery]" by simp
  show ?thesis using a b no_crash_default [OF a b, of "[]" "[]"] by blast
qed

subsection \<open>The poller and the sentinel pid\<close>

lemma parsePID_stoi_error:
  "stoi (drop (length ''core.'') fname) = Inl err \<Longrightarrow> parsePID fname = - 1"
  by (simp add: parsePID_def Let_def)

lemma poll_cycle_new:
  assumes "scan_dir entries file_time_min None = Some newest"
    and "entry_path newest \<noteq> lastCore w"
  shows "poll_cycle (Some entries) w =
           \<lparr>lastCore = entry_path newest, shared = detected_crash newest\<rparr>"
  using assms by (simp add: poll_cycle_def Let_def)


lemma scan_core_x:
  "scan_dir [\<lparr>filename = ''core.x'', is_regular_file = True, last_write_time = 7\<rparr>] file_time_min None
    = Some \<lparr>filename = ''core.x'', is_regular_file = True, last_write_time = 7\<rparr>"
  by (simp add: starts_with_def file_time_min_def)

lemma stoi_x: "stoi (drop (length ''core.'') ''core.x'') = Inl invalid_argument"
  by code_simp

lemma entry_path_nonempty: "entry_path e \<noteq> []"
  by (simp add: entry_path_def CRASH_DIR_def)

text \<open>
  C7 (malformed artifact name). When the newest artifact found by a poll cycle is new and
  the text after \<open>core.\<close> in its name makes \<open>std::stoi\<close> throw (either exception),
  \<open>parsePID\<close> returns the sentinel \<open>-1\<close> instead of raising, and the cycle still installs
  the crash record: both flags set, \<open>exePath\<close> unknown, the placeholder exception code,
  the artifact's full path, and the sentinel converted to \<open>unsigned long\<close> as pid.
\<close>

theorem malformed_pid_still_recorded:
  assumes "scan_dir entries file_time_min None = Some newest"
    and "entry_path newest \<noteq> lastCore w"
    and "stoi (drop (length ''core.'') (filename newest)) = Inl err"
  shows "parsePID (filename newest) = - 1
       \<and> poll_cycle (Some entries) w =
           \<lparr>lastCore = entry_path newest,
            shared = \<lparr>g_crashHappened = True,
                      g_lastCrash = \<lparr>haveCrash = True, exePath = ''unknown'',
                                      pid = word_of_int (- 1), exceptionCode = 0xC0000005,
                                      crashFile = entry_path newest\<rparr>\<rparr>\<rparr>"
  using assms(3) poll_cycle_new [OF assms(1,2)]
  by (simp add: parsePID_stoi_error detected_crash_def Let_def)

theorem malformed_pid_still_recorded_witness:
  "scan_dir [\<lparr>filename = ''core.x'', is_regular_file = True, last_write_time = 7\<rparr>] file_time_min None
     = Some \<lparr>filename = ''core.x'', is_regular_file = True, last_write_time = 7\<rparr>
   \<and> entry_path \<lparr>filename = ''core.x'', is_regular_file = True, last_write_time = 7\<rparr>
        \<noteq> lastCore initial_watcher
   \<and> stoi (drop (length ''core.'') ''core.x'') = Inl invalid_argument
   \<and> parsePID ''core.x'' = - 1
   \<and> poll_cycle (Some [\<lparr>filename = ''core.x'', is_regular_file = True, last_write_time = 7\<rparr>])
        initial_watcher =
       \<lparr>lastCore = ''/mnt/virtfs/fawkes/crashes/core.x'',
        shared = \<lparr>g_crashHappened = True,
                  g_lastCrash = \<lparr>haveCrash = True, exePath = ''unknown'',
                                  pid = word_of_int (- 1), exceptionCode = 0xC0000005,
                                  crashFile = ''/mnt/virtfs/fawkes/crashes/core.x''\<rparr>\<rparr>\<rparr>"
proof -
  let ?e = "\<lparr>filename = ''core.x'', is_regular_file = True, last_write_time = 7\<rparr>"
  have a: "scan_dir [?e] file_time_min None = Some ?e" by (rule scan_core_x)
  have b: "entry_path ?e \<noteq> lastCore initial_watcher"
    by (simp add: initial_watcher_def entry_path_nonempty)
  have c: "stoi (drop (length ''core.'') (filename ?e)) = Inl invalid_argument"
    using stoi_x by simp
  have p: "entry_path ?e = ''/mnt/virtfs/fawkes/crashes/core.x''"
    by (simp add: entry_path_def CRASH_DIR_def)
  show ?thesis
    using a b c malformed_pid_still_recorded [OF a b c] by (simp add: p)
qed

text \<open>
  C9 (sentinel pid as unsigned). In the same situation the stored pid is the \<open>int\<close> value
  \<open>-1\<close> converted to a 64-bit \<open>unsigned long\<close>, that is \<open>2^64 - 1 = 18446744073709551615\<close>,
  and the responder prints that number in the \<open>pid\<close> field, not \<open>-1\<close>.
\<close>

theorem sentinel_pid_rendered_unsigned:
  assumes "scan_dir entries file_time_min None = Some newest"
    and "entry_path newest \<noteq> lastCore w"
    and "stoi (drop (length ''core.'') (filename newest)) = Inl err"
  shows "pid (g_lastCrash (shared (poll_cycle (Some entries) w))) = 18446744073709551615
       \<and> unat (pid (g_lastCrash (shared (poll_cycle (Some entries) w)))) = 2 ^ 64 - 1
       \<and> response_linux h d (shared (poll_cycle (Some entries) w)) =
           ''{ \"crash\": true, \"pid\": 18446744073709551615, \"exe\": \"unknown\", \"exception\": \"'' @
           exception_text_linux h d 0xC0000005 @
           ''\", \"file\": \"'' @ entry_path newest @ ''\" }'' @ [LF]"
proof -
  have s: "shared (poll_cycle (Some entries) w) =
             \<lparr>g_crashHappened = True,
              g_lastCrash = \<lparr>haveCrash = True, exePath = ''unknown'', pid = - 1,
                              exceptionCode = 0xC0000005, crashFile = entry_path newest\<rparr>\<rparr>"
    using assms(3) poll_cycle_new [OF assms(1,2)]
    by (simp add: parsePID_stoi_error detected_crash_def Let_def)
  have m: "(- 1 :: ulong) = 18446744073709551615" by simp
  have u: "unat (18446744073709551615 :: ulong) = 2 ^ 64 - 1" by simp
  show ?thesis
    unfolding s by (simp add: response_linux_def to_string_minus_one m [symmetric] unat_minus_one_ulong)
qed


theorem sentinel_pid_rendered_unsigned_witness:
  "scan_dir [\<lparr>filename = ''core.x'', is_regular_file = True, last_write_time = 7\<rparr>] file_time_min None
     = Some \<lparr>filename = ''core.x'', is_regular_file = True, last_write_time = 7\<rparr>
   \<and> entry_path \<lparr>filename = ''core.x'', is_regular_file = True, last_write_time = 7\<rparr>
        \<noteq> lastCore initial_watcher
   \<and> stoi (drop (length ''core.'') ''core.x'') = Inl invalid_argument
   \<and> pid (g_lastCrash (shared (poll_cycle
         (Some [\<lparr>filename = ''core.x'', is_regular_file = True, last_write_time = 7\<rparr>])
         initial_watcher))) = 18446744073709551615
   \<and> response_linux [] [] (shared (poll_cycle
         (Some [\<lparr>filename = ''core.x'', is_regular_file = True, last_write_time = 7\<rparr>])
         initial_watcher)) =
       ''{ \"crash\": true, \"pid\": 18446744073709551615, \"exe\": \"unknown\", \"exception\": \"0x3221225477\", \"file\": \"/mnt/virtfs/fawkes/crashes/core.x\" }'' @ [LF]"
proof -
  let ?e = "\<lparr>filename = ''core.x'', is_regular_file = True, last_write_time = 7\<rparr>"
  have a: "scan_dir [?e] file_time_min None = Some ?e" by (rule scan_core_x)
  have b: "entry_path ?e \<noteq> lastCore initial_watcher"
    by (simp add: initial_watcher_def entry_path_nonempty)
  have c: "stoi (drop (length ''core.'') (filename ?e)) = Inl invalid_argument"
    using stoi_x by simp
  have p: "entry_path ?e = ''/mnt/virtfs/fawkes/crashes/core.x''"
    by (simp add: entry_path_def CRASH_DIR_def)
  have x: "exception_text_linux [] [] 0xC0000005 = ''0x3221225477''"
    by (simp add: exception_text_linux_def to_string_placeholder)
  show ?thesis
    using a b c sentinel_pid_rendered_unsigned [OF a b c, of "[]" "[]"] by (simp add: p x)
qed

lemma hex_digits_small: "n < 16 \<Longrightarrow> hex_digits n = [digit_char n]"
  by (simp add: hex_digits.simps)

lemma hex_digits_step:
  "16 \<le> n \<Longrightarrow> hex_digits n = hex_digits (n div 16) @ [digit_char (n mod 16)]"
  by (subst hex_digits.simps) simp

lemma hex_string_access_violation: "hex_string (0xC0000005 :: dword) = ''c0000005''"
  by (simp add: hex_string_def hex_digits_small hex_digits_step digit_char_def)

lemma to_string_1234: "to_string (1234 :: dword) = ''1234''"
  by (simp add: to_string_def dec_digits_small dec_digits_step digit_char_def)

subsection \<open>The Windows trap handler\<close>

text \<open>
  C10 (artifact creation fails). The claim: when the artifact file cannot be created,
  \<open>CreateCrashJSON\<close> returns the empty string and the handler still installs a record
  with both flags set, the captured executable path, pid and fault code and an empty
  \<open>crashFile\<close>, so that the next query reports \<open>crash: true\<close> with \<open>"file": ""\<close>.
  The handler does this when the directory step succeeds and the \<open>std::ofstream\<close> on the
  artifact path cannot be opened (second part). It does not when the file cannot be
  created because the crash directory is missing and cannot be created: the directory
  step throws, \<open>CreateCrashJSON\<close> returns nothing, the handler stores nothing (first
  part), and after such a fault, \<open>share_unmounted\<close>, a query still answers
  \<open>{ "crash": false }\<close> (last part).
\<close>

theorem artifact_failure_reported_only_if_directory_ok:
  "(crash_dir pExp = dir_unavailable \<longrightarrow>
      CreateCrashJSON (crash_dir pExp) (ofstream_ok pExp) buf exe pd code = Inl filesystem_error
      \<and> MyUnhandledExceptionFilter pExp g = Inl filesystem_error
      \<and> windows_step (Fault pExp) g = g)
   \<and> (crash_dir pExp \<noteq> dir_unavailable \<and> \<not> ofstream_ok pExp \<longrightarrow>
        CreateCrashJSON (crash_dir pExp) (ofstream_ok pExp) buf exe pd code = Inr ([], None)
        \<and> MyUnhandledExceptionFilter pExp g =
            Inr \<lparr>g_crashHappened = True,
                 g_lastCrash = \<lparr>haveCrash = True,
                                 exePath = (case ModuleFileName pExp of
                                              None \<Rightarrow> ''unknown'' | Some p \<Rightarrow> p),
                                 pid = CurrentProcessId pExp,
                                 exceptionCode = ExceptionCode pExp,
                                 crashFile = []\<rparr>\<rparr>
        \<and> response_windows (windows_step (Fault pExp) g) =
            ''{ \"crash\": true, \"pid\": '' @ to_string (CurrentProcessId pExp) @
            '', \"exe\": \"'' @ (case ModuleFileName pExp of None \<Rightarrow> ''unknown'' | Some p \<Rightarrow> p) @
            ''\", \"exception\": \"0x'' @ hex_string (ExceptionCode pExp) @
            ''\", \"file\": \"\" }'' @ [LF])
   \<and> crash_dir share_unmounted = dir_unavailable
   \<and> windows_step (Fault share_unmounted) initial_globals = initial_globals
   \<and> response_windows (windows_step (Fault share_unmounted) initial_globals) =
       ''{ \"crash\": false }'' @ [LF]"
proof (intro conjI impI)
  assume "crash_dir pExp = dir_unavailable"
  then show "CreateCrashJSON (crash_dir pExp) (ofstream_ok pExp) buf exe pd code =
      Inl filesystem_error"
    and "MyUnhandledExceptionFilter pExp g = Inl filesystem_error"
    and "windows_step (Fault pExp) g = g"
    by (simp_all add: CreateCrashJSON_def MyUnhandledExceptionFilter_def Let_def)
next
  assume a: "crash_dir pExp \<noteq> dir_unavailable \<and> \<not> ofstream_ok pExp"
  then show "CreateCrashJSON (crash_dir pExp) (ofstream_ok pExp) buf exe pd code =
      Inr ([], None)"
    by (simp add: CreateCrashJSON_def)
  from a show m: "MyUnhandledExceptionFilter pExp g =
            Inr \<lparr>g_crashHappened = True,
                 g_lastCrash = \<lparr>haveCrash = True,
                                 exePath = (case ModuleFileName pExp of
                                              None \<Rightarrow> ''unknown'' | Some p \<Rightarrow> p),
                                 pid = CurrentProcessId pExp,
                                 exceptionCode = ExceptionCode pExp,
                                 crashFile = []\<rparr>\<rparr>"
    by (simp add: CreateCrashJSON_def MyUnhandledExceptionFilter_def Let_def)
  show "response_windows (windows_step (Fault pExp) g) =
            ''{ \"crash\": true, \"pid\": '' @ to_string (CurrentProcessId pExp) @
            '', \"exe\": \"'' @ (case ModuleFileName pExp of None \<Rightarrow> ''unknown'' | Some p \<Rightarrow> p) @
            ''\", \"exception\": \"0x'' @ hex_string (ExceptionCode pExp) @
            ''\", \"file\": \"\" }'' @ [LF]"
    by (simp add: m response_windows_def Let_def)
next
  show "crash_dir share_unmounted = dir_unavailable"
    by (simp add: share_unmounted_def)
  show u: "windows_step (Fault share_unmounted) initial_globals = initial_globals"
    by (simp add: share_unmounted_def CreateCrashJSON_def MyUnhandledExceptionFilter_def Let_def)
  show "response_windows (windows_step (Fault share_unmounted) initial_globals) =
       ''{ \"crash\": false }'' @ [LF]"
    unfolding u
    by (simp add: response_windows_def initial_globals_def no_crash_response_def)
qed

theorem artifact_failure_reported_only_if_directory_ok_witness:
  "crash_dir stream_refused \<noteq> dir_unavailable
   \<and> \<not> ofstream_ok stream_refused
   \<and> response_windows (windows_step (Fault stream_refused) initial_globals) =
       ''{ \"crash\": true, \"pid\": 1234, \"exe\": \"agent.exe\", \"exception\": \"0xc0000005\", \"file\": \"\" }'' @ [LF]
   \<and> crash_dir share_unmounted = dir_unavailable
   \<and> MyUnhandledExceptionFilter share_unmounted initial_globals = Inl filesystem_error"
proof -
  note t = artifact_failure_reported_only_if_directory_ok
  have a: "crash_dir stream_refused \<noteq> dir_unavailable \<and> \<not> ofstream_ok stream_refused"
    by (simp add: stream_refused_def)
  have "response_windows (windows_step (Fault stream_refused) initial_globals) =
          ''{ \"crash\": true, \"pid\": '' @ to_string (CurrentProcessId stream_refused) @
          '', \"exe\": \"'' @
          (case ModuleFileName stream_refused of None \<Rightarrow> ''unknown'' | Some p \<Rightarrow> p) @
          ''\", \"exception\": \"0x'' @ hex_string (ExceptionCode stream_refused) @
          ''\", \"file\": \"\" }'' @ [LF]"
    using a t [of stream_refused "[]" "[]" 0 0 initial_globals] by blast
  then have r: "response_windows (windows_step (Fault stream_refused) initial_globals) =
       ''{ \"crash\": true, \"pid\": 1234, \"exe\": \"agent.exe\", \"exception\": \"0xc0000005\", \"file\": \"\" }'' @ [LF]"
    by (simp add: stream_refused_def to_string_1234 hex_string_access_violation)
  have b: "crash_dir share_unmounted = dir_unavailable"
    by (simp add: share_unmounted_def)
  have "MyUnhandledExceptionFilter share_unmounted initial_globals = Inl filesystem_error"
    using b t [of share_unmounted "[]" "[]" 0 0 initial_globals] by blast
  with a r b show ?thesis by blast
qed

lemma scan_core_4242: "scan_dir [core_4242] file_time_min None = Some core_4242"
  by (simp add: core_4242_def starts_with_def file_time_min_def)

lemma parsePID_core_4242: "parsePID ''core.4242'' = 4242"
  by code_simp

subsection \<open>The exception field of the Linux responder\<close>

text \<open>
  C1 (canonical hex exception field, Linux agent). After the poll cycle that detects
  \<open>core.4242\<close>, the Linux responder's exception field is \<open>0x\<close> followed by what the
  two manipulator operands contribute around the decimal digits \<open>3221225477\<close> of the
  placeholder code, since the code is formatted by \<open>std::to_string\<close>. Whatever the two
  operands contribute, the field is never \<open>0xc0000005\<close>. (The Windows responder formats
  the same code through a stream in hex mode, see \<open>hex_string_access_violation\<close>.)
\<close>

theorem linux_exception_field_is_decimal:
  "response_linux h d (shared (poll_cycle (Some [core_4242]) initial_watcher)) =
     ''{ \"crash\": true, \"pid\": 4242, \"exe\": \"unknown\", \"exception\": \"0x'' @ h @
     ''3221225477'' @ d @ ''\", \"file\": \"/mnt/virtfs/fawkes/crashes/core.4242\" }'' @ [LF]
   \<and> exception_text_linux h d
        (exceptionCode (g_lastCrash (shared (poll_cycle (Some [core_4242]) initial_watcher))))
       \<noteq> ''0xc0000005''"
proof -
  have b: "entry_path core_4242 \<noteq> lastCore initial_watcher"
    by (simp add: initial_watcher_def entry_path_nonempty)
  have s: "shared (poll_cycle (Some [core_4242]) initial_watcher) =
             \<lparr>g_crashHappened = True,
              g_lastCrash = \<lparr>haveCrash = True, exePath = ''unknown'', pid = 4242,
                              exceptionCode = 0xC0000005,
                              crashFile = ''/mnt/virtfs/fawkes/crashes/core.4242''\<rparr>\<rparr>"
    using poll_cycle_new [OF scan_core_4242 b]
    by (simp add: detected_crash_def Let_def entry_path_def CRASH_DIR_def core_4242_def
        parsePID_core_4242)
  have "length (exception_text_linux h d 0xC0000005) \<noteq> length ''0xc0000005''"
    by (simp add: exception_text_linux_def to_string_placeholder)
  then have n: "exception_text_linux h d 0xC0000005 \<noteq> ''0xc0000005''"
    by metis
  show ?thesis
    unfolding s using n
    by (simp add: response_linux_def exception_text_linux_def to_string_placeholder to_string_4242)
qed

subsection \<open>Monotonicity of the crash flags\<close>

lemma poll_cycle_flag: "g_crashHappened (shared w) \<Longrightarrow> g_crashHappened (shared (poll_cycle observed w))"
  by (simp add: poll_cycle_def detected_crash_def Let_def split: option.splits)

lemma poll_cycle_haveCrash:
  "haveCrash (g_lastCrash (shared w)) \<Longrightarrow> haveCrash (g_lastCrash (shared (poll_cycle observed w)))"
  by (simp add: poll_cycle_def detected_crash_def Let_def split: option.splits)

lemma linux_run_flag:
  "g_crashHappened (shared w) \<Longrightarrow> g_crashHappened (shared (linux_run evs w))"
proof (induction evs arbitrary: w)
  case Nil
  then show ?case by simp
next
  case (Cons ev evs)
  have "g_crashHappened (shared (linux_step ev w))"
    using Cons.prems by (cases ev) (simp_all add: poll_cycle_flag)
  then show ?case by (simp add: Cons.IH)
qed

lemma linux_run_haveCrash:
  "haveCrash (g_lastCrash (shared w)) \<Longrightarrow> haveCrash (g_lastCrash (shared (linux_run evs w)))"
proof (induction evs arbitrary: w)
  case Nil
  then show ?case by simp
next
  case (Cons ev evs)
  have "haveCrash (g_lastCrash (shared (linux_step ev w)))"
    using Cons.prems by (cases ev) (simp_all add: poll_cycle_haveCrash)
  then show ?case by (simp add: Cons.IH)
qed

lemma windows_step_flags:
  "g_crashHappened g \<Longrightarrow> g_crashHappened (windows_step ev g)"
  "haveCrash (g_lastCrash g) \<Longrightarrow> haveCrash (g_lastCrash (windows_step ev g))"
  by (cases ev; simp add: MyUnhandledExceptionFilter_def Let_def split: sum.splits prod.splits)+

lemma windows_run_flag:
  "g_crashHappened g \<Longrightarrow> g_crashHappened (windows_run evs g)"
  by (induction evs arbitrary: g) (simp_all add: windows_step_flags)

lemma windows_run_haveCrash:
  "haveCrash (g_lastCrash g) \<Longrightarrow> haveCrash (g_lastCrash (windows_run evs g))"
  by (induction evs arbitrary: g) (simp_all add: windows_step_flags)

lemma linux_run_append: "linux_run (evs1 @ evs2) w = linux_run evs2 (linux_run evs1 w)"
  by (induction evs1 arbitrary: w) simp_all

lemma windows_run_append: "windows_run (evs1 @ evs2) g = windows_run evs2 (windows_run evs1 g)"
  by (induction evs1 arbitrary: g) simp_all

lemma linux_step_writes_true:
  "shared (linux_step ev w) = shared w \<or> present (shared (linux_step ev w))"
proof (cases ev)
  case (Poll observed)
  then show ?thesis
    by (simp add: poll_cycle_def detected_crash_def present_def Let_def split: option.splits)
next
  case Query
  then show ?thesis by simp
qed

lemma windows_step_writes_true:
  "windows_step ev g = g \<or> present (windows_step ev g)"
  by (cases ev)
    (auto simp add: MyUnhandledExceptionFilter_def present_def Let_def
      split: sum.splits prod.splits)

text \<open>
  C3 (the present flag never reverts). In both agents \<open>g_crashHappened\<close> and
  \<open>haveCrash\<close> are false at process start; along every sequence of detector and
  responder steps from the start, once either is true after a prefix of the sequence it
  is still true after any continuation; and every step that changes the shared record
  leaves both flags true (no step writes false).
\<close>

theorem present_never_reverts:
  "\<not> g_crashHappened (shared initial_watcher)
   \<and> \<not> haveCrash (g_lastCrash (shared initial_watcher))
   \<and> \<not> g_crashHappened (initial_globals :: dword globals)
   \<and> \<not> haveCrash (g_lastCrash (initial_globals :: dword globals))
   \<and> (g_crashHappened (shared (linux_run evs1 initial_watcher)) \<longrightarrow>
        g_crashHappened (shared (linux_run (evs1 @ evs2) initial_watcher)))
   \<and> (haveCrash (g_lastCrash (shared (linux_run evs1 initial_watcher))) \<longrightarrow>
        haveCrash (g_lastCrash (shared (linux_run (evs1 @ evs2) initial_watcher))))
   \<and> (g_crashHappened (windows_run wevs1 initial_globals) \<longrightarrow>
        g_crashHappened (windows_run (wevs1 @ wevs2) initial_globals))
   \<and> (haveCrash (g_lastCrash (windows_run wevs1 initial_globals)) \<longrightarrow>
        haveCrash (g_lastCrash (windows_run (wevs1 @ wevs2) initial_globals)))
   \<and> (shared (linux_step ev w) = shared w \<or> present (shared (linux_step ev w)))
   \<and> (windows_step wev g = g \<or> present (windows_step wev g))"
proof -
  have i: "\<not> g_crashHappened (shared initial_watcher)"
      "\<not> haveCrash (g_lastCrash (shared initial_watcher))"
      "\<not> g_crashHappened (initial_globals :: dword globals)"
      "\<not> haveCrash (g_lastCrash (initial_globals :: dword globals))"
    by (simp_all add: initial_watcher_def initial_globals_def initial_CrashInfo_def)
  show ?thesis
    using i linux_step_writes_true [of ev w] windows_step_writes_true [of wev g]
    by (simp add: linux_run_append windows_run_append linux_run_flag linux_run_haveCrash
        windows_run_flag windows_run_haveCrash)
qed

theorem present_never_reverts_witness:
  "g_crashHappened (shared (linux_run [Poll (Some [core_4242])] initial_watcher))
   \<and> haveCrash (g_lastCrash (shared (linux_run [Poll (Some [core_4242])] initial_watcher)))
   \<and> g_crashHappened (windows_run [Fault access_violation] initial_globals)
   \<and> haveCrash (g_lastCrash (windows_run [Fault access_violation] initial_globals))
   \<and> g_crashHappened (shared (linux_run ([Poll (Some [core_4242])] @ [Query, Poll (Some [])])
        initial_watcher))
   \<and> haveCrash (g_lastCrash (shared (linux_run ([Poll (Some [core_4242])] @ [Query, Poll (Some [])])
        initial_watcher)))
   \<and> g_crashHappened (windows_run ([Fault access_violation] @ [WQuery]) initial_globals)
   \<and> haveCrash (g_lastCrash (windows_run ([Fault access_violation] @ [WQuery]) initial_globals))"
proof -
  have b: "entry_path core_4242 \<noteq> lastCore initial_watcher"
    by (simp add: initial_watcher_def entry_path_nonempty)
  have l: "g_crashHappened (shared (linux_run [Poll (Some [core_4242])] initial_watcher))"
      "haveCrash (g_lastCrash (shared (linux_run [Poll (Some [core_4242])] initial_watcher)))"
    using poll_cycle_new [OF scan_core_4242 b] by (simp_all add: detected_crash_def Let_def)
  have w: "g_crashHappened (windows_run [Fault access_violation] initial_globals)"
      "haveCrash (g_lastCrash (windows_run [Fault access_violation] initial_globals))"
    by (simp_all add: MyUnhandledExceptionFilter_def CreateCrashJSON_def access_violation_def
        Let_def)
  show ?thesis
    using l w
      present_never_reverts [of "[Poll (Some [core_4242])]" "[Query, Poll (Some [])]"
        "[Fault access_violation]" "[WQuery]" Query initial_watcher WQuery initial_globals]
    by blast
qed

subsection \<open>Selection of the candidate artifact\<close>

lemma scan_dir_keeps:
  "\<forall>e\<in>set (matching entries). last_write_time e \<le> t \<Longrightarrow> scan_dir entries t p = p"
  by (induction entries t p rule: scan_dir.induct) (auto simp: matching_def)

lemma scan_dir_first_newest:
  "\<exists>e\<in>set (matching entries). t < last_write_time e \<Longrightarrow>
   \<exists>newest pre post.
     scan_dir entries t p = Some newest \<and> matching entries = pre @ newest # post \<and>
     (\<forall>x\<in>set pre. last_write_time x < last_write_time newest) \<and>
     (\<forall>x\<in>set post. last_write_time x \<le> last_write_time newest) \<and>
     t < last_write_time newest"
proof (induction entries arbitrary: t p)
  case Nil
  then show ?case by (simp add: matching_def)
next
  case (Cons a entries)
  show ?case
  proof (cases "is_regular_file a \<and> starts_with (filename a) ''core.''")
    case False
    then have m: "matching (a # entries) = matching entries"
      by (auto simp: matching_def)
    from False have s: "scan_dir (a # entries) t p = scan_dir entries t p"
      by auto
    from Cons.prems m have "\<exists>e\<in>set (matching entries). t < last_write_time e" by simp
    from Cons.IH [OF this, of p] show ?thesis unfolding m s .
  next
    case True
    then have m: "matching (a # entries) = a # matching entries"
      by (simp add: matching_def)
    show ?thesis
    proof (cases "t < last_write_time a")
      case newer: True
      with True have s: "scan_dir (a # entries) t p = scan_dir entries (last_write_time a) (Some a)"
        by simp
      show ?thesis
      proof (cases "\<exists>e\<in>set (matching entries). last_write_time a < last_write_time e")
        case True
        from Cons.IH [OF True, of "Some a"] obtain newest pre post where
          r: "scan_dir entries (last_write_time a) (Some a) = Some newest"
            "matching entries = pre @ newest # post"
            "\<forall>x\<in>set pre. last_write_time x < last_write_time newest"
            "\<forall>x\<in>set post. last_write_time x \<le> last_write_time newest"
            "last_write_time a < last_write_time newest"
          by blast
        have "matching (a # entries) = (a # pre) @ newest # post"
          using m r(2) by simp
        moreover have "\<forall>x\<in>set (a # pre). last_write_time x < last_write_time newest"
          using r(3,5) by simp
        moreover have "t < last_write_time newest"
          using newer r(5) by simp
        moreover have "scan_dir (a # entries) t p = Some newest"
          using s r(1) by simp
        ultimately show ?thesis
          using r(4) by blast
      next
        case False
        then have le: "\<forall>e\<in>set (matching entries). last_write_time e \<le> last_write_time a"
          by (simp add: not_less)
        have "scan_dir (a # entries) t p = Some a"
          using s scan_dir_keeps [OF le] by simp
        moreover have "matching (a # entries) = [] @ a # matching entries"
          using m by simp
        ultimately show ?thesis
          using le newer by fastforce
      qed
    next
      case older: False
      with True have s: "scan_dir (a # entries) t p = scan_dir entries t p"
        by simp
      from Cons.prems m older have "\<exists>e\<in>set (matching entries). t < last_write_time e"
        by auto
      from Cons.IH [OF this, of p] obtain newest pre post where
        r: "scan_dir entries t p = Some newest"
          "matching entries = pre @ newest # post"
          "\<forall>x\<in>set pre. last_write_time x < last_write_time newest"
          "\<forall>x\<in>set post. last_write_time x \<le> last_write_time newest"
          "t < last_write_time newest"
        by blast
      have "matching (a # entries) = (a # pre) @ newest # post"
        using m r(2) by simp
      moreover have "\<forall>x\<in>set (a # pre). last_write_time x < last_write_time newest"
        using r(3,5) older by auto
      moreover have "scan_dir (a # entries) t p = Some newest"
        using s r(1) by simp
      ultimately show ?thesis
        using r(4,5) by blast
    qed
  qed
qed

lemma scan_min_time_core: "scan_dir [min_time_core] file_time_min None = None"
  by (simp add: min_time_core_def starts_with_def file_time_min_def)

lemma matching_min_time_core: "matching [min_time_core] = [min_time_core]"
  by (simp add: matching_def min_time_core_def starts_with_def)

text \<open>
  C6 (newest artifact wins, first seen on ties). The claim: in every poll cycle the scan
  ignores the entries that are not regular files or whose name does not begin with
  \<open>core.\<close> and selects, among the remaining ones, the one with the greatest time, the
  first encountered among equally new ones. The scan starts from \<open>file_time_min\<close> and
  replaces its candidate only on a strictly greater time. So it does what the claim says
  whenever some remaining entry lies above \<open>file_time_min\<close> (first part: the selected
  entry is strictly newer than every remaining entry before it and at least as new as
  every one after it), and it selects nothing when no entry remains (second part). But
  when all remaining entries are stamped with \<open>file_time_min\<close> it selects nothing
  either (third part): for a directory holding only the artifact \<open>min_time_core\<close>, the
  newest and only remaining entry is not selected and the cycle records no crash (last
  part).
\<close>

theorem scan_selects_newest_unless_min_time:
  "((\<exists>e\<in>set (matching entries). file_time_min < last_write_time e) \<longrightarrow>
      (\<exists>newest pre post.
         scan_dir entries file_time_min None = Some newest \<and>
         matching entries = pre @ newest # post \<and>
         (\<forall>x\<in>set pre. last_write_time x < last_write_time newest) \<and>
         (\<forall>x\<in>set post. last_write_time x \<le> last_write_time newest)))
   \<and> (matching entries = [] \<longrightarrow> scan_dir entries file_time_min None = None)
   \<and> ((\<forall>e\<in>set (matching entries). last_write_time e = file_time_min) \<longrightarrow>
        scan_dir entries file_time_min None = None)
   \<and> matching [min_time_core] = [min_time_core]
   \<and> scan_dir [min_time_core] file_time_min None = None
   \<and> poll_cycle (Some [min_time_core]) initial_watcher = initial_watcher"
proof (intro conjI impI)
  assume "\<exists>e\<in>set (matching entries). file_time_min < last_write_time e"
  from scan_dir_first_newest [OF this, of None]
  show "\<exists>newest pre post.
          scan_dir entries file_time_min None = Some newest \<and>
          matching entries = pre @ newest # post \<and>
          (\<forall>x\<in>set pre. last_write_time x < last_write_time newest) \<and>
          (\<forall>x\<in>set post. last_write_time x \<le> last_write_time newest)"
    by blast
next
  assume "matching entries = []"
  then show "scan_dir entries file_time_min None = None"
    by (simp add: scan_dir_keeps)
next
  assume "\<forall>e\<in>set (matching entries). last_write_time e = file_time_min"
  then show "scan_dir entries file_time_min None = None"
    by (simp add: scan_dir_keeps)
next
  show "matching [min_time_core] = [min_time_core]"
    by (rule matching_min_time_core)
  show "scan_dir [min_time_core] file_time_min None = None"
    by (rule scan_min_time_core)
  then show "poll_cycle (Some [min_time_core]) initial_watcher = initial_watcher"
    by (simp add: poll_cycle_def)
qed

lemma matching_example:
  "matching crash_dir_example =
     [\<lparr>filename = ''core.0'', is_regular_file = True, last_write_time = 0\<rparr>,
      \<lparr>filename = ''core.1'', is_regular_file = True, last_write_time = 5\<rparr>,
      \<lparr>filename = ''core.2'', is_regular_file = True, last_write_time = 7\<rparr>,
      \<lparr>filename = ''core.3'', is_regular_file = True, last_write_time = 7\<rparr>]"
  by (simp add: matching_def crash_dir_example_def starts_with_def)

lemma scan_example:
  "scan_dir crash_dir_example file_time_min None =
     Some \<lparr>filename = ''core.2'', is_regular_file = True, last_write_time = 7\<rparr>"
  by (simp add: crash_dir_example_def starts_with_def file_time_min_def)

theorem scan_selects_newest_unless_min_time_witness:
  "(\<exists>e\<in>set (matching crash_dir_example). file_time_min < last_write_time e)
   \<and> scan_dir crash_dir_example file_time_min None =
       Some \<lparr>filename = ''core.2'', is_regular_file = True, last_write_time = 7\<rparr>
   \<and> (\<exists>newest pre post.
        scan_dir crash_dir_example file_time_min None = Some newest \<and>
        matching crash_dir_example = pre @ newest # post \<and>
        (\<forall>x\<in>set pre. last_write_time x < last_write_time newest) \<and>
        (\<forall>x\<in>set post. last_write_time x \<le> last_write_time newest))
   \<and> list_all (\<lambda>e. last_write_time e = file_time_min) (matching [min_time_core])
   \<and> scan_dir [min_time_core] file_time_min None = None"
proof -
  have a: "\<exists>e\<in>set (matching crash_dir_example). file_time_min < last_write_time e"
    by (simp add: matching_example file_time_min_def)
  have b: "\<forall>e\<in>set (matching [min_time_core]). last_write_time e = file_time_min"
    by (simp add: matching_min_time_core) (simp add: min_time_core_def file_time_min_def)
  have c: "list_all (\<lambda>e. last_write_time e = file_time_min) (matching [min_time_core])"
    using b by (simp add: list_all_iff)
  have d: "scan_dir [min_time_core] file_time_min None = None"
    using b scan_selects_newest_unless_min_time [of "[min_time_core]"] by blast
  show ?thesis
    using a c d scan_example scan_selects_newest_unless_min_time [of crash_dir_example]
    by blast
qed

subsection \<open>Deduplication in the poller\<close>
















subsection \<open>Idempotence of the configurators\<close>

lemma RegCreateKeyExA_present: "RegCreateKeyExA key reg key \<noteq> None"
  by (simp add: RegCreateKeyExA_def split: option.splits)

lemma RegCreateKeyExA_existing: "reg key \<noteq> None \<Longrightarrow> RegCreateKeyExA key reg = reg"
  by (auto simp add: RegCreateKeyExA_def)

lemma RegSetValueExA_present:
  "reg key \<noteq> None \<Longrightarrow> RegSetValueExA key name d reg key \<noteq> None"
  by (auto simp add: RegSetValueExA_def)

lemma RegSetValueExA_idem:
  "RegSetValueExA key name d (RegSetValueExA key name d reg) = RegSetValueExA key name d reg"
  by (auto simp add: RegSetValueExA_def split: option.splits)

lemma RegSetValueExA_swap:
  "name \<noteq> name' \<Longrightarrow>
   RegSetValueExA key name d (RegSetValueExA key name' d' reg) =
   RegSetValueExA key name' d' (RegSetValueExA key name d reg)"
  by (auto simp add: RegSetValueExA_def fun_upd_twist split: option.splits)

lemma ConfigureWER_idem:
  "ConfigureWER api (snd (ConfigureWER api reg)) = ConfigureWER api reg"
proof -
  let ?c = "RegCreateKeyExA WER_KEY reg"
  let ?f = "RegSetValueExA WER_KEY ''DumpFolder'' (REG_SZ CRASH_SUBDIR)"
  let ?t = "RegSetValueExA WER_KEY ''DumpType'' (REG_DWORD 2)"
  have c: "RegCreateKeyExA WER_KEY ?c = ?c"
    by (rule RegCreateKeyExA_existing) (rule RegCreateKeyExA_present)
  have cf: "RegCreateKeyExA WER_KEY (?f ?c) = ?f ?c"
    by (intro RegCreateKeyExA_existing RegSetValueExA_present RegCreateKeyExA_present)
  have ct: "RegCreateKeyExA WER_KEY (?t (?f ?c)) = ?t (?f ?c)"
    by (intro RegCreateKeyExA_existing RegSetValueExA_present RegCreateKeyExA_present)
  have sw: "?f (?t (?f ?c)) = ?t (?f ?c)"
  proof -
    have "?f (?t (?f ?c)) = ?t (?f (?f ?c))"
      by (rule RegSetValueExA_swap) simp
    then show ?thesis by (simp add: RegSetValueExA_idem)
  qed
  show ?thesis
    by (simp add: ConfigureWER_def Let_def c cf ct sw RegSetValueExA_idem)
qed

lemma ConfigureWER_values:
  assumes "create_key_succeeds api" "set_DumpFolder_succeeds api" "set_DumpType_succeeds api"
  shows "fst (ConfigureWER api reg) \<and>
         (\<exists>vals. snd (ConfigureWER api reg) WER_KEY = Some vals \<and>
            vals ''DumpFolder'' = Some (REG_SZ CRASH_SUBDIR) \<and>
            vals ''DumpType'' = Some (REG_DWORD 2))"
  using assms
  by (auto simp add: ConfigureWER_def Let_def RegCreateKeyExA_def RegSetValueExA_def
      split: option.splits)

lemma proc_sys_write_value: "proc_sys_write (CORE_PATTERN_VALUE @ [LF]) = CORE_PATTERN_VALUE"
  by (simp add: proc_sys_write_def CORE_PATTERN_VALUE_def LF_def)

lemma ConfigureCorePattern_idem:
  "ConfigureCorePattern api (snd (ConfigureCorePattern api k)) = ConfigureCorePattern api k"
  by (simp add: ConfigureCorePattern_def setrlimit_def Let_def)


lemma ConfigureCorePattern_values:
  assumes "ofstream_opens api" "write_succeeds api" "CAP_SYS_RESOURCE api"
  shows "ConfigureCorePattern api k =
           (True, \<lparr>core_pattern = CORE_PATTERN_VALUE,
                   RLIMIT_CORE = \<lparr>rlim_cur = RLIM_INFINITY, rlim_max = RLIM_INFINITY\<rparr>\<rparr>)"
  using assms
  by (simp add: ConfigureCorePattern_def setrlimit_def Let_def proc_sys_write_value)

text \<open>
  C8 (idempotent configuration). With the same outcome of the system calls on both runs,
  running a configurator a second time yields the same report and the same configuration
  state as running it once; in particular a second run after a successful one reports
  success, and when the calls succeed the state after two runs is the intended one:
  \<open>DumpFolder\<close> and \<open>DumpType\<close> under the error-reporting key, respectively the core
  pattern and an unlimited core size. No outcome depends on the values being there already.
\<close>

theorem configuration_idempotent:
  "ConfigureWER api (snd (ConfigureWER api reg)) = ConfigureWER api reg
   \<and> ConfigureCorePattern sys (snd (ConfigureCorePattern sys k)) = ConfigureCorePattern sys k
   \<and> (fst (ConfigureWER api reg) \<longrightarrow> fst (ConfigureWER api (snd (ConfigureWER api reg))))
   \<and> (fst (ConfigureCorePattern sys k) \<longrightarrow>
        fst (ConfigureCorePattern sys (snd (ConfigureCorePattern sys k))))
   \<and> (create_key_succeeds api \<and> set_DumpFolder_succeeds api \<and> set_DumpType_succeeds api \<longrightarrow>
        fst (ConfigureWER api (snd (ConfigureWER api reg))) \<and>
        (\<exists>vals. snd (ConfigureWER api (snd (ConfigureWER api reg))) WER_KEY = Some vals \<and>
           vals ''DumpFolder'' = Some (REG_SZ CRASH_SUBDIR) \<and>
           vals ''DumpType'' = Some (REG_DWORD 2)))
   \<and> (ofstream_opens sys \<and> write_succeeds sys \<and> CAP_SYS_RESOURCE sys \<longrightarrow>
        ConfigureCorePattern sys (snd (ConfigureCorePattern sys k)) =
          (True, \<lparr>core_pattern = CORE_PATTERN_VALUE,
                  RLIMIT_CORE = \<lparr>rlim_cur = RLIM_INFINITY, rlim_max = RLIM_INFINITY\<rparr>\<rparr>))"
proof -
  have w: "ConfigureWER api (snd (ConfigureWER api reg)) = ConfigureWER api reg"
    by (rule ConfigureWER_idem)
  have c: "ConfigureCorePattern sys (snd (ConfigureCorePattern sys k)) = ConfigureCorePattern sys k"
    by (rule ConfigureCorePattern_idem)
  show ?thesis
    unfolding w c
    using ConfigureWER_values [of api reg] ConfigureCorePattern_values [of sys k]
    by blast
qed

theorem configuration_idempotent_witness:
  "fst (ConfigureWER all_succeed Map.empty)
   \<and> fst (ConfigureCorePattern as_root fresh_kernel)
   \<and> create_key_succeeds all_succeed \<and> set_DumpFolder_succeeds all_succeed
   \<and> set_DumpType_succeeds all_succeed
   \<and> ofstream_opens as_root \<and> write_succeeds as_root \<and> CAP_SYS_RESOURCE as_root
   \<and> fst (ConfigureWER all_succeed (snd (ConfigureWER all_succeed Map.empty)))
   \<and> ConfigureWER all_succeed (snd (ConfigureWER all_succeed Map.empty)) =
       ConfigureWER all_succeed Map.empty
   \<and> ConfigureCorePattern as_root (snd (ConfigureCorePattern as_root fresh_kernel)) =
       (True, \<lparr>core_pattern = ''/mnt/virtfs/fawkes/crashes/core.%p'',
               RLIMIT_CORE = \<lparr>rlim_cur = RLIM_INFINITY, rlim_max = RLIM_INFINITY\<rparr>\<rparr>)"
proof -
  have a: "create_key_succeeds all_succeed \<and> set_DumpFolder_succeeds all_succeed \<and>
           set_DumpType_succeeds all_succeed"
    by (simp add: all_succeed_def)
  have b: "ofstream_opens as_root \<and> write_succeeds as_root \<and> CAP_SYS_RESOURCE as_root"
    by (simp add: as_root_def)
  have c: "fst (ConfigureWER all_succeed Map.empty)"
    by (simp add: ConfigureWER_def all_succeed_def Let_def)
  have d: "fst (ConfigureCorePattern as_root fresh_kernel)"
    by (simp add: ConfigureCorePattern_def setrlimit_def as_root_def Let_def)
  note t = configuration_idempotent [of all_succeed Map.empty as_root fresh_kernel]
  have t1: "fst (ConfigureWER all_succeed (snd (ConfigureWER all_succeed Map.empty)))"
    using t c by blast
  have t2: "ConfigureWER all_succeed (snd (ConfigureWER all_succeed Map.empty)) =
       ConfigureWER all_succeed Map.empty"
    using t by blast
  have "ConfigureCorePattern as_root (snd (ConfigureCorePattern as_root fresh_kernel)) =
       (True, \<lparr>core_pattern = CORE_PATTERN_VALUE,
               RLIMIT_CORE = \<lparr>rlim_cur = RLIM_INFINITY, rlim_max = RLIM_INFINITY\<rparr>\<rparr>)"
    using t b by blast
  then have t3: "ConfigureCorePattern as_root (snd (ConfigureCorePattern as_root fresh_kernel)) =
       (True, \<lparr>core_pattern = ''/mnt/virtfs/fawkes/crashes/core.%p'',
               RLIMIT_CORE = \<lparr>rlim_cur = RLIM_INFINITY, rlim_max = RLIM_INFINITY\<rparr>\<rparr>)"
    unfolding CORE_PATTERN_VALUE_def .
  show ?thesis
    using a b c d t1 t2 t3 by blast
qed

subsection \<open>Snapshot consistency of the store\<close>

lemma conc_inv_start: "conc_inv new old (start old)"
  by (simp add: conc_inv_def mutex_inv_def writer_inv_def reader_inv_def start_def)

lemma mem_completed:
  assumes "writer_inv new old s" "set_at s = S_done"
  shows "mem s = completed new"
proof -
  have "g_lastCrash (mem s) = g_lastCrash (completed new)"
    using assms by (intro CrashInfo.equality) (simp_all add: writer_inv_def completed_def Let_def)
  moreover have "g_crashHappened (mem s) = g_crashHappened (completed new)"
    using assms by (simp add: writer_inv_def completed_def Let_def)
  ultimately show ?thesis by (intro globals.equality) simp_all
qed

lemma set_step_mutex: "mutex_inv s \<Longrightarrow> mutex_inv (set_step new s)"
  by (cases "set_at s"; cases "get_at s"; auto simp add: mutex_inv_def set_step_def)

lemma get_step_mutex: "mutex_inv s \<Longrightarrow> mutex_inv (get_step s)"
  by (cases "set_at s"; cases "get_at s"; auto simp add: mutex_inv_def get_step_def)

lemma set_step_writer: "writer_inv new old s \<Longrightarrow> writer_inv new old (set_step new s)"
  by (cases "set_at s"; simp add: writer_inv_def set_step_def Let_def)

lemma get_step_writer: "writer_inv new old s \<Longrightarrow> writer_inv new old (get_step s)"
  by (cases "get_at s"; simp add: writer_inv_def get_step_def Let_def)


lemma reader_holds_mem:
  assumes "mutex_inv s" "writer_inv new old s" "g_crashMutex s = Some Responder"
  shows "(set_at s = S_lock \<and> mem s = old) \<or> (set_at s = S_done \<and> mem s = completed new)"
proof -
  have "g_crashMutex s \<noteq> Some Detector" using assms(3) by simp
  with assms(1) have "set_at s = S_lock \<or> set_at s = S_done"
    by (cases "set_at s") (simp_all add: mutex_inv_def)
  then show ?thesis
  proof
    assume l: "set_at s = S_lock"
    with assms(2) have "mem s = old" by (simp add: writer_inv_def Let_def)
    with l show ?thesis by simp
  next
    assume d: "set_at s = S_done"
    with mem_completed [OF assms(2)] show ?thesis by simp
  qed
qed

lemma set_step_locals:
  "get_at (set_step new s) = get_at s" "crash (set_step new s) = crash s"
  "branch (set_step new s) = branch s" "copy (set_step new s) = copy s"
  by (cases "set_at s"; simp add: set_step_def)+

lemma set_step_progress: "set_progress (set_at s) \<le> set_progress (set_at (set_step new s))"
  by (cases "set_at s"; simp add: set_step_def)

lemma set_step_reader:
  assumes "mutex_inv s" "writer_inv new old s" "reader_inv new old s"
  shows "reader_inv new old (set_step new s)"
proof (cases "g_crashMutex s = Some Responder")
  case True
  with reader_holds_mem [OF assms(1,2)] have "set_at s = S_lock \<or> set_at s = S_done"
    by blast
  with True have "set_step new s = s"
    by (auto simp add: set_step_def)
  with assms(3) show ?thesis by simp
next
  case False
  with assms(1) have q: "get_progress (get_at s) < 2 \<or> 7 < get_progress (get_at s)"
    by (auto simp add: mutex_inv_def)
  have o: "outcome (set_step new s) = outcome s"
    by (simp add: outcome_def set_step_locals)
  have m: "2 \<le> set_progress (set_at s) \<Longrightarrow> 2 \<le> set_progress (set_at (set_step new s))"
    using set_step_progress [of s new] by simp
  have r1: "get_progress (get_at s) \<le> 2 \<longrightarrow> \<not> branch s"
    and r2: "1 \<le> get_progress (get_at s) \<longrightarrow>
        (crash s \<longrightarrow> g_crashHappened old \<or> 2 \<le> set_progress (set_at s)) \<and>
        (\<not> crash s \<longrightarrow> \<not> g_crashHappened old)"
    and r7: "7 \<le> get_progress (get_at s) \<longrightarrow>
        outcome s = observe old \<or> outcome s = observe (completed new)"
    using assms(3) by (simp_all add: reader_inv_def Let_def)
  show ?thesis
    unfolding reader_inv_def Let_def o set_step_locals
  proof (intro conjI impI)
    show "\<not> branch s" if "get_progress (get_at s) \<le> 2"
      using r1 that by simp
    show "g_crashHappened old \<or> 2 \<le> set_progress (set_at (set_step new s))"
      if "1 \<le> get_progress (get_at s)" "crash s"
      using r2 that m by blast
    show "\<not> g_crashHappened old" if "1 \<le> get_progress (get_at s)" "\<not> crash s"
      using r2 that by blast
    show "outcome s = observe old \<or> outcome s = observe (completed new)"
      if "7 \<le> get_progress (get_at s)"
      using r7 that by blast
  qed (use q in linarith)+
qed


lemma get_step_reader:
  assumes "mutex_inv s" "writer_inv new old s" "reader_inv new old s"
  shows "reader_inv new old (get_step s)"
proof (cases "get_at s")
  case G_load
  have "g_crashHappened (mem s) \<longrightarrow> g_crashHappened old \<or> 2 \<le> set_progress (set_at s)"
    using assms(2) by (auto simp add: writer_inv_def Let_def)
  moreover have "\<not> g_crashHappened (mem s) \<longrightarrow> \<not> g_crashHappened old"
    using assms(2) by (auto simp add: writer_inv_def Let_def)
  ultimately show ?thesis
    using assms(3) G_load by (simp add: reader_inv_def get_step_def Let_def)
next
  case G_lock
  with assms(3) show ?thesis
    by (simp add: reader_inv_def get_step_def Let_def)
next
  case G_test
  with assms(1) have h: "g_crashMutex s = Some Responder"
    by (simp add: mutex_inv_def)
  show ?thesis
  proof (cases "crash s \<and> haveCrash (g_lastCrash (mem s))")
    case True
    with assms(3) G_test show ?thesis
      by (simp add: reader_inv_def get_step_def Let_def)
  next
    case False
    have c: "1 \<le> get_progress (get_at s)" using G_test by simp
    have r2: "(crash s \<longrightarrow> g_crashHappened old \<or> 2 \<le> set_progress (set_at s)) \<and>
        (\<not> crash s \<longrightarrow> \<not> g_crashHappened old)"
      using assms(3) c by (simp add: reader_inv_def Let_def)
    have "observe old = None"
      using reader_holds_mem [OF assms(1,2) h] False r2
      by (auto simp add: observe_def completed_def)
    then have "outcome (get_step s) = observe old"
      using False G_test by (simp add: get_step_def outcome_def)
    with assms(3) G_test False show ?thesis
      by (simp add: reader_inv_def get_step_def Let_def)
  qed
next
  case G_pid
  with assms(3) show ?thesis
    by (simp add: reader_inv_def get_step_def Let_def)
next
  case G_exePath
  with assms(3) show ?thesis
    by (simp add: reader_inv_def get_step_def Let_def)
next
  case G_exceptionCode
  with assms(3) show ?thesis
    by (simp add: reader_inv_def get_step_def Let_def)
next
  case G_crashFile
  with assms(1) have h: "g_crashMutex s = Some Responder"
    by (simp add: mutex_inv_def)
  have r: "branch s" "crash s" "haveCrash (copy s)" "haveCrash (g_lastCrash (mem s))"
      "pid (copy s) = pid (g_lastCrash (mem s))"
      "exePath (copy s) = exePath (g_lastCrash (mem s))"
      "exceptionCode (copy s) = exceptionCode (g_lastCrash (mem s))"
      and r2: "crash s \<longrightarrow> g_crashHappened old \<or> 2 \<le> set_progress (set_at s)"
    using assms(3) G_crashFile by (simp_all add: reader_inv_def Let_def)
  have e: "(copy s)\<lparr>crashFile := crashFile (g_lastCrash (mem s))\<rparr> = g_lastCrash (mem s)"
    using r by (intro CrashInfo.equality) simp_all
  have o: "outcome (get_step s) = Some (g_lastCrash (mem s))"
    using G_crashFile r(1) e by (simp add: get_step_def outcome_def)
  have "Some (g_lastCrash (mem s)) = observe old \<or>
        Some (g_lastCrash (mem s)) = observe (completed new)"
    using reader_holds_mem [OF assms(1,2) h] r(2,4) r2
    by (auto simp add: observe_def completed_def)
  with o have "outcome (get_step s) = observe old \<or> outcome (get_step s) = observe (completed new)"
    by simp
  moreover have "get_at (get_step s) = G_unlock" "crash (get_step s) = crash s"
      "set_at (get_step s) = set_at s"
    using G_crashFile by (simp_all add: get_step_def)
  ultimately show ?thesis
    using r(2) r2 assms(3) G_crashFile by (simp add: reader_inv_def Let_def)
next
  case G_unlock
  then have "outcome (get_step s) = outcome s"
    by (simp add: get_step_def outcome_def)
  with assms(3) G_unlock show ?thesis
    by (simp add: reader_inv_def get_step_def Let_def)
next
  case G_done
  with assms(3) show ?thesis
    by (simp add: get_step_def)
qed

lemma step_inv: "conc_inv new old s \<Longrightarrow> conc_inv new old (step new t s)"
  by (cases t)
    (simp_all add: conc_inv_def set_step_mutex get_step_mutex set_step_writer get_step_writer
      set_step_reader get_step_reader)

lemma run_inv: "conc_inv new old s \<Longrightarrow> conc_inv new old (run new schedule s)"
  by (induction schedule arbitrary: s) (simp_all add: step_inv)

lemma mutex_owner: "m = None \<or> m = Some Detector \<or> m = Some Responder"
proof (cases m)
  case None
  then show ?thesis by simp
next
  case (Some t)
  then show ?thesis by (cases t) simp_all
qed

lemma get_advances:
  assumes "mutex_inv s" "g_crashMutex s \<noteq> Some Detector"
  shows "min 8 (Suc (get_progress (get_at s))) \<le> get_progress (get_at (get_step s))
       \<and> g_crashMutex (get_step s) \<noteq> Some Detector"
  using assms mutex_owner [of "g_crashMutex s"]
  by (cases "get_at s"; auto simp add: mutex_inv_def get_step_def)

lemma set_advances:
  assumes "mutex_inv s" "g_crashMutex s \<noteq> Some Responder"
  shows "min 8 (Suc (set_progress (set_at s))) \<le> set_progress (set_at (set_step new s))
       \<and> g_crashMutex (set_step new s) \<noteq> Some Responder"
  using assms mutex_owner [of "g_crashMutex s"]
  by (cases "set_at s"; auto simp add: mutex_inv_def set_step_def)

lemma run_Responder_advances:
  "mutex_inv s \<Longrightarrow> g_crashMutex s \<noteq> Some Detector \<Longrightarrow>
   min 8 (get_progress (get_at s) + n) \<le> get_progress (get_at (run new (replicate n Responder) s))"
proof (induction n arbitrary: s)
  case 0
  then show ?case by simp
next
  case (Suc n)
  from get_advances [OF Suc.prems] have
    a: "min 8 (Suc (get_progress (get_at s))) \<le> get_progress (get_at (get_step s))"
    and b: "g_crashMutex (get_step s) \<noteq> Some Detector"
    by simp_all
  from Suc.IH [OF get_step_mutex [OF Suc.prems(1)] b] a show ?case
    by simp
qed

lemma run_Detector_advances:
  "mutex_inv s \<Longrightarrow> g_crashMutex s \<noteq> Some Responder \<Longrightarrow>
   min 8 (set_progress (set_at s) + n) \<le> set_progress (set_at (run new (replicate n Detector) s))"
proof (induction n arbitrary: s)
  case 0
  then show ?case by simp
next
  case (Suc n)
  from set_advances [OF Suc.prems, of new] have
    a: "min 8 (Suc (set_progress (set_at s))) \<le> set_progress (set_at (set_step new s))"
    and b: "g_crashMutex (set_step new s) \<noteq> Some Responder"
    by simp_all
  from Suc.IH [OF set_step_mutex [OF Suc.prems(1)] b] a show ?case
    by simp
qed

lemma get_progress_done: "8 \<le> get_progress p \<Longrightarrow> p = G_done"
  by (cases p) simp_all

lemma set_progress_done: "8 \<le> set_progress p \<Longrightarrow> p = S_done"
  by (cases p) simp_all

lemma run_mutex: "mutex_inv s \<Longrightarrow> mutex_inv (run new schedule s)"
proof (induction schedule arbitrary: s)
  case Nil
  then show ?case by simp
next
  case (Cons t ts)
  then show ?case by (cases t) (simp_all add: set_step_mutex get_step_mutex)
qed

lemma run_append: "run new (xs @ ys) s = run new ys (run new xs s)"
  by (induction xs arbitrary: s) simp_all

lemma step_done_stays: "get_at s = G_done \<Longrightarrow> get_at (step new t s) = G_done"
  by (cases t; cases "set_at s"; simp add: set_step_def get_step_def)

lemma run_done_stays: "get_at s = G_done \<Longrightarrow> get_at (run new schedule s) = G_done"
  by (induction schedule arbitrary: s) (simp_all add: step_done_stays)

lemma get_step_blocked:
  "mutex_inv s \<Longrightarrow> g_crashMutex s = Some Detector \<Longrightarrow> g_crashMutex (get_step s) = Some Detector"
  by (cases "get_at s"; auto simp add: mutex_inv_def get_step_def)

lemma run_Responder_blocked:
  "mutex_inv s \<Longrightarrow> g_crashMutex s = Some Detector \<Longrightarrow>
   g_crashMutex (run new (replicate n Responder) s) = Some Detector"
  by (induction n arbitrary: s) (simp_all add: get_step_blocked get_step_mutex)

lemma run_Detector_unlocked:
  "mutex_inv s \<Longrightarrow> g_crashMutex s \<noteq> Some Responder \<Longrightarrow>
   g_crashMutex (run new (replicate n Detector) s) \<noteq> Some Responder"
proof (induction n arbitrary: s)
  case 0
  then show ?case by simp
next
  case (Suc n)
  from set_advances [OF Suc.prems, of new] Suc.IH [OF set_step_mutex [OF Suc.prems(1)]]
  show ?case by simp
qed

lemma drain_finishes:
  assumes "mutex_inv s"
  shows "get_at (run new drain s) = G_done"
proof (cases "g_crashMutex s = Some Detector")
  case False
  let ?s1 = "run new (replicate 8 Responder) s"
  have "min 8 (get_progress (get_at s) + 8) \<le> get_progress (get_at ?s1)"
    using assms False by (rule run_Responder_advances)
  then have "get_at ?s1 = G_done"
    by (intro get_progress_done) simp
  then show ?thesis
    by (simp add: drain_def run_append run_done_stays)
next
  case True
  let ?s1 = "run new (replicate 8 Responder) s"
  let ?s2 = "run new (replicate 8 Detector) ?s1"
  have m1: "mutex_inv ?s1" using assms by (rule run_mutex)
  have m2: "mutex_inv ?s2" using m1 by (rule run_mutex)
  have "g_crashMutex ?s1 = Some Detector"
    using assms True by (rule run_Responder_blocked)
  then have u1: "g_crashMutex ?s1 \<noteq> Some Responder" by simp
  have "min 8 (set_progress (set_at ?s1) + 8) \<le> set_progress (set_at ?s2)"
    using m1 u1 by (rule run_Detector_advances)
  then have d: "set_at ?s2 = S_done"
    by (intro set_progress_done) simp
  with m2 have u2: "g_crashMutex ?s2 \<noteq> Some Detector"
    by (simp add: mutex_inv_def)
  have "min 8 (get_progress (get_at ?s2) + 8) \<le>
        get_progress (get_at (run new (replicate 8 Responder) ?s2))"
    using m2 u2 by (rule run_Responder_advances)
  then have "get_at (run new (replicate 8 Responder) ?s2) = G_done"
    by (intro get_progress_done) simp
  then show ?thesis
    by (simp add: drain_def run_append)
qed

text \<open>
  C2 (snapshot consistency). For every interleaving of one set with one get, from any
  globals \<open>old\<close> left by earlier completed sets (or the initial ones): when the get has
  finished, what it observed is what a get running alone observes either of \<open>old\<close> or of
  the globals after the whole set, never fields of both. And every interleaving can be
  continued so that the get finishes: neither thread blocks the other forever.
\<close>

theorem snapshot_consistency:
  "(get_at (run new schedule (start old)) = G_done \<longrightarrow>
      outcome (run new schedule (start old)) = observe old
      \<or> outcome (run new schedule (start old)) = observe (completed new))
   \<and> get_at (run new (schedule @ drain) (start old)) = G_done"
proof -
  have i: "conc_inv new old (run new schedule (start old))"
    by (rule run_inv) (rule conc_inv_start)
  then have "reader_inv new old (run new schedule (start old))"
    by (simp add: conc_inv_def)
  then have safe: "get_at (run new schedule (start old)) = G_done \<longrightarrow>
      outcome (run new schedule (start old)) = observe old
      \<or> outcome (run new schedule (start old)) = observe (completed new)"
    by (simp add: reader_inv_def Let_def)
  from i have "mutex_inv (run new schedule (start old))"
    by (simp add: conc_inv_def)
  then have "get_at (run new drain (run new schedule (start old))) = G_done"
    by (rule drain_finishes)
  with safe show ?thesis
    by (simp add: run_append)
qed

lemma overlapping_run:
  "run core_4242_record overlapping (start initial_globals) =
     \<lparr>mem = \<lparr>g_crashHappened = True, g_lastCrash = core_4242_record\<rparr>,
      g_crashMutex = None, set_at = S_done, get_at = G_done, crash = True, branch = True,
      copy = core_4242_record\<rparr>"
  by (simp add: overlapping_def start_def set_step_def get_step_def initial_globals_def
      initial_CrashInfo_def core_4242_record_def)

theorem snapshot_consistency_witness:
  "get_at (run core_4242_record overlapping (start initial_globals)) = G_done
   \<and> outcome (run core_4242_record overlapping (start initial_globals)) = Some core_4242_record
   \<and> (outcome (run core_4242_record overlapping (start initial_globals)) = observe initial_globals
      \<or> outcome (run core_4242_record overlapping (start initial_globals)) =
          observe (completed core_4242_record))"
proof -
  have a: "get_at (run core_4242_record overlapping (start initial_globals)) = G_done"
    by (simp add: overlapping_run)
  have b: "outcome (run core_4242_record overlapping (start initial_globals)) =
      Some core_4242_record"
    by (simp add: overlapping_run outcome_def)
  show ?thesis
    using a b snapshot_consistency [of core_4242_record overlapping initial_globals]
    by blast
qed

end
